theory Spec2Isabelle
  imports Main "HOL-Library.Word" "HOL-Library.Sublist"
begin

section \<open>The context manager of Ollama-Code (context\_manager/manager.go)\<close>

text \<open>
  The Go package keeps a cache of file contents, decides which paths to ignore, walks the
  project tree and assembles a size-bounded context for one file. The functions below are
  the Go functions of \<^verbatim>\<open>manager.go\<close>, with these conventions:
  \<^item> a Go \<^verbatim>\<open>string\<close> is a byte sequence, here \<open>string\<close> (a list of \<open>char\<close>);
  \<^item> a Go \<^verbatim>\<open>int\<close> is an \<open>int\<close>; lengths of strings held in memory at the same time
    cannot add up to an overflow, so no wrap-around is written;
  \<^item> \<^verbatim>\<open>ModTime().UnixNano()\<close> is an \<^verbatim>\<open>int64\<close>, here a \<open>64 word\<close>;
  \<^item> a Go \<^verbatim>\<open>error\<close> is a value of type \<open>error\<close>, and a function returning
    \<^verbatim>\<open>(T, error)\<close> returns \<open>error + T\<close>;
  \<^item> the struct is passed in and returned (the mutex is not modelled: one call runs at a
    time);
  \<^item> the operating system and the parts of Go's standard library that depend on the
    platform or on Unicode tables are the fields of a record \<open>world\<close>, which every
    function takes as its first argument; the world does not change while one call runs,
    and two calls may be given two worlds;
  \<^item> the path separator is that of Unix.
\<close>

subsection \<open>Errors, file information, the world\<close>

datatype error = SkipDir | SkipAll | NilPointerPanic | Err string

record FileInfo =
  fiName :: string
  fiIsDir :: bool
  fiModTime :: "64 word"

record DirEntry =
  deName :: string
  deIsDir :: bool

text \<open>
  What \<^verbatim>\<open>filepath.Walk\<close> can see below a path: the name of the entry, the result of
  \<^verbatim>\<open>os.Lstat\<close> on it, the error of reading its names (for a directory) and the
  entries below it, in the sorted order in which \<^verbatim>\<open>readDirNames\<close> returns them.
  \<^verbatim>\<open>Lstat\<close> does not follow symbolic links, so this is a finite tree, and the walk
  over it ends. \<^verbatim>\<open>os.Stat\<close>, which \<^verbatim>\<open>ShouldIgnore\<close> calls on the paths of the walk,
  is a field of the world of its own, and need not agree with \<^verbatim>\<open>Lstat\<close>.
\<close>

datatype fsnode =
  FsNode (node_name: string) (node_lstat: "error + FileInfo")
         (node_readdir_err: "error option") (node_children: "fsnode list")

record world =
  os_Stat :: "string \<Rightarrow> error + FileInfo"
  os_ReadFile :: "string \<Rightarrow> error + string"
  os_ReadDir :: "string \<Rightarrow> error + DirEntry list"
  lstat_tree :: "string \<Rightarrow> fsnode"
  filepath_Join :: "string \<Rightarrow> string \<Rightarrow> string"
  filepath_Rel :: "string \<Rightarrow> string \<Rightarrow> error + string"
  filepath_Dir :: "string \<Rightarrow> string"
  filepath_Match :: "string \<Rightarrow> string \<Rightarrow> error + bool"
  strings_TrimSpace :: "string \<Rightarrow> string"
  strings_ToLower :: "string \<Rightarrow> string"

subsection \<open>Byte-level functions of Go's strings and filepath packages\<close>

definition PathSeparator :: char where
  "PathSeparator = CHR ''/''"

definition HasPrefix :: "string \<Rightarrow> string \<Rightarrow> bool" where
  "HasPrefix s pre = (take (length pre) s = pre)"

definition HasSuffix :: "string \<Rightarrow> string \<Rightarrow> bool" where
  "HasSuffix s suf = (length suf \<le> length s \<and> drop (length s - length suf) s = suf)"

definition TrimPrefix :: "string \<Rightarrow> string \<Rightarrow> string" where
  "TrimPrefix s pre = (if HasPrefix s pre then drop (length pre) s else s)"

definition TrimSuffix :: "string \<Rightarrow> string \<Rightarrow> string" where
  "TrimSuffix s suf = (if HasSuffix s suf then take (length s - length suf) s else s)"

text \<open>\<^verbatim>\<open>strings.Trim\<close> with a cutset of ASCII bytes, the only use in the source.\<close>

definition Trim :: "string \<Rightarrow> string \<Rightarrow> string" where
  "Trim s cutset =
     rev (dropWhile (\<lambda>c. c \<in> set cutset) (rev (dropWhile (\<lambda>c. c \<in> set cutset) s)))"

fun Contains :: "string \<Rightarrow> string \<Rightarrow> bool" where
  "Contains [] substr = (substr = [])"
| "Contains (c # cs) substr = (HasPrefix (c # cs) substr \<or> Contains cs substr)"

text \<open>
  \<^verbatim>\<open>strings.Split\<close> with a separator that is not empty (the source splits at a
  newline, at \<^verbatim>\<open>from\<close>, at \<^verbatim>\<open>import\<close> and at the path separator): the pieces
  between the occurrences of the separator, found from left to right.
\<close>

function split_from :: "string \<Rightarrow> string \<Rightarrow> string \<Rightarrow> string list" where
  "split_from sep cur [] = [cur]"
| "split_from sep cur (c # cs) =
     (if sep \<noteq> [] \<and> HasPrefix (c # cs) sep
      then cur # split_from sep [] (drop (length sep) (c # cs))
      else split_from sep (cur @ [c]) cs)"
  by pat_completeness auto
termination
  by (relation "measure (\<lambda>(sep, cur, s). length s)") (auto simp: neq_Nil_conv)

definition Split :: "string \<Rightarrow> string \<Rightarrow> string list" where
  "Split s sep = split_from sep [] s"

fun join_with :: "string \<Rightarrow> string list \<Rightarrow> string" where
  "join_with sep [] = []"
| "join_with sep [x] = x"
| "join_with sep (x # y # ys) = x @ sep @ join_with sep (y # ys)"

text \<open>\<^verbatim>\<open>strings.ReplaceAll\<close> for a pattern that is not empty.\<close>

definition ReplaceAll :: "string \<Rightarrow> string \<Rightarrow> string \<Rightarrow> string" where
  "ReplaceAll s old new = join_with new (Split s old)"

definition Repeat :: "string \<Rightarrow> nat \<Rightarrow> string" where
  "Repeat s n = concat (replicate n s)"

text \<open>
  \<^verbatim>\<open>filepath.Ext\<close>: the suffix of the last path element that starts at its last dot.
\<close>

definition Ext :: "string \<Rightarrow> string" where
  "Ext path =
     (let r = takeWhile (\<lambda>c. c \<noteq> PathSeparator) (rev path)
      in if CHR ''.'' \<in> set r then CHR ''.'' # rev (takeWhile (\<lambda>c. c \<noteq> CHR ''.'') r) else [])"

text \<open>
  \<^verbatim>\<open>filepath.Base\<close> on Unix: the last element of the path, after trailing separators
  are removed.
\<close>

definition Base :: "string \<Rightarrow> string" where
  "Base path =
     (if path = [] then ''.''
      else let p = dropWhile (\<lambda>c. c = PathSeparator) (rev path);
               b = rev (takeWhile (\<lambda>c. c \<noteq> PathSeparator) p)
           in if b = [] then [PathSeparator] else b)"

subsection \<open>The struct and its constructor\<close>

record ContextManager =
  rootPath :: string
  fileCache :: "string \<rightharpoonup> string"
  fileMtimes :: "string \<rightharpoonup> 64 word"
  ignoreDirs :: "string list"
  ignoreFiles :: "string list"
  maxContextLen :: int
  isKaliLinux :: bool

definition NewContextManager :: "world \<Rightarrow> string \<Rightarrow> ContextManager" where
  "NewContextManager w root =
     (let isKali =
            (case os_Stat w ''/etc/os-release'' of
               Inl err \<Rightarrow> False
             | Inr info \<Rightarrow>
                 (case os_ReadFile w ''/etc/os-release'' of
                    Inl err \<Rightarrow> False
                  | Inr data \<Rightarrow> Contains data ''ID=kali''));
          dirs = [''.git'', ''node_modules'', ''__pycache__'', ''venv'', ''.env'', ''.venv''];
          dirs' = (if isKali
                   then dirs @ [''.msf4'', ''metasploit-framework'', ''wordlists'', ''exploitdb'']
                   else dirs)
      in \<lparr> rootPath = root, fileCache = Map.empty, fileMtimes = Map.empty,
           ignoreDirs = dirs',
           ignoreFiles = [''.DS_Store'', ''*.pyc'', ''*.o'', ''*.out'', ''*.log''],
           maxContextLen = 16384, isKaliLinux = isKali \<rparr>)"

definition SetMaxContextLength :: "ContextManager \<Rightarrow> int \<Rightarrow> ContextManager" where
  "SetMaxContextLength cm maxLen = cm\<lparr>maxContextLen := maxLen\<rparr>"

definition AddIgnorePattern :: "ContextManager \<Rightarrow> string \<Rightarrow> ContextManager" where
  "AddIgnorePattern cm pattern =
     (if HasSuffix pattern ''/''
      then cm\<lparr>ignoreDirs := ignoreDirs cm @ [TrimSuffix pattern ''/'']\<rparr>
      else cm\<lparr>ignoreFiles := ignoreFiles cm @ [pattern]\<rparr>)"

subsection \<open>GetFileContent\<close>

text \<open>
  The calls to the operating system that one call of \<^verbatim>\<open>GetFileContent\<close> makes are
  returned with its result, in the order in which they are made: they are how a test counts
  the reads.
\<close>

datatype os_call = CallStat string | CallReadFile string

text \<open>Lines 83 to 91: the cached content, when the stored time is the time on disk.\<close>

definition cache_fast_path ::
  "world \<Rightarrow> ContextManager \<Rightarrow> string \<Rightarrow> string option \<times> os_call list" where
  "cache_fast_path w cm filePath =
     (case fileCache cm filePath of
        None \<Rightarrow> (None, [])
      | Some content \<Rightarrow>
          (case os_Stat w filePath of
             Inl err \<Rightarrow> (None, [CallStat filePath])
           | Inr info \<Rightarrow>
               (case fileMtimes cm filePath of
                  None \<Rightarrow> (None, [CallStat filePath])
                | Some mtime \<Rightarrow>
                    if mtime = fiModTime info then (Some content, [CallStat filePath])
                    else (None, [CallStat filePath]))))"

definition GetFileContent ::
  "world \<Rightarrow> ContextManager \<Rightarrow> string
     \<Rightarrow> (error + string) \<times> ContextManager \<times> os_call list" where
  "GetFileContent w cm filePath =
     (case cache_fast_path w cm filePath of
        (Some content, calls) \<Rightarrow> (Inr content, cm, calls)
      | (None, calls) \<Rightarrow>
          (case os_ReadFile w filePath of
             Inl err \<Rightarrow> (Inl err, cm, calls @ [CallReadFile filePath])
           | Inr data \<Rightarrow>
               (case os_Stat w filePath of
                  Inl err \<Rightarrow>
                    (Inr data, cm, calls @ [CallReadFile filePath, CallStat filePath])
                | Inr info \<Rightarrow>
                    (Inr data,
                     cm\<lparr>fileCache := (fileCache cm)(filePath \<mapsto> data),
                        fileMtimes := (fileMtimes cm)(filePath \<mapsto> fiModTime info)\<rparr>,
                     calls @ [CallReadFile filePath, CallStat filePath]))))"

subsection \<open>ShouldIgnore\<close>

fun matches_any :: "world \<Rightarrow> string list \<Rightarrow> string \<Rightarrow> bool" where
  "matches_any w [] base = False"
| "matches_any w (ignorePattern # ps) base =
     (case filepath_Match w ignorePattern base of
        Inr matched \<Rightarrow> if matched then True else matches_any w ps base
      | Inl err \<Rightarrow> matches_any w ps base)"

definition ShouldIgnore :: "world \<Rightarrow> ContextManager \<Rightarrow> string \<Rightarrow> bool" where
  "ShouldIgnore w cm path =
     (let base = Base path
      in case os_Stat w path of
           Inl err \<Rightarrow> False
         | Inr info \<Rightarrow>
             if fiIsDir info then base \<in> set (ignoreDirs cm)
             else matches_any w (ignoreFiles cm) base)"

subsection \<open>filepath.Walk\<close>

text \<open>
  \<^verbatim>\<open>filepath.Walk\<close> of Go's standard library, after its implementation: the callback is
  called on the root, then on every entry in sorted order, a directory before its
  entries. It gets the path, the \<^verbatim>\<open>FileInfo\<close> (nil when \<^verbatim>\<open>Lstat\<close> failed) and the
  error of \<^verbatim>\<open>Lstat\<close> or of reading the directory. \<^verbatim>\<open>SkipDir\<close> returned for a
  directory skips its entries; returned for a file it skips the rest of the directory the
  file is in, and the walk goes on in the parent; any other error stops the walk. The
  state \<open>'s\<close> is what the callback's closure writes to.
\<close>

type_synonym 's WalkFunc =
  "string \<Rightarrow> FileInfo option \<Rightarrow> error option \<Rightarrow> 's \<Rightarrow> error option \<times> 's"

fun walk :: "world \<Rightarrow> 's WalkFunc \<Rightarrow> string \<Rightarrow> FileInfo \<Rightarrow> fsnode \<Rightarrow> 's \<Rightarrow> error option \<times> 's"
  and walk_entries :: "world \<Rightarrow> 's WalkFunc \<Rightarrow> string \<Rightarrow> fsnode list \<Rightarrow> 's \<Rightarrow> error option \<times> 's"
where
  "walk w walkFn path info (FsNode nm ls rderr kids) s =
     (if \<not> fiIsDir info then walkFn path (Some info) None s
      else case walkFn path (Some info) rderr s of
             (err1, s1) \<Rightarrow>
               if rderr \<noteq> None \<or> err1 \<noteq> None then (err1, s1)
               else walk_entries w walkFn path kids s1)"
| "walk_entries w walkFn path [] s = (None, s)"
| "walk_entries w walkFn path (k # ks) s =
     (case node_lstat k of
        Inl err \<Rightarrow>
          (case walkFn (filepath_Join w path (node_name k)) None (Some err) s of
             (None, s1) \<Rightarrow> walk_entries w walkFn path ks s1
           | (Some e, s1) \<Rightarrow>
               if e \<noteq> SkipDir then (Some e, s1) else walk_entries w walkFn path ks s1)
      | Inr fileInfo \<Rightarrow>
          (case walk w walkFn (filepath_Join w path (node_name k)) fileInfo k s of
             (None, s1) \<Rightarrow> walk_entries w walkFn path ks s1
           | (Some e, s1) \<Rightarrow>
               if \<not> fiIsDir fileInfo \<or> e \<noteq> SkipDir then (Some e, s1)
               else walk_entries w walkFn path ks s1))"

definition Walk :: "world \<Rightarrow> string \<Rightarrow> 's WalkFunc \<Rightarrow> 's \<Rightarrow> error option \<times> 's" where
  "Walk w root fn s =
     (case (case node_lstat (lstat_tree w root) of
              Inl err \<Rightarrow> fn root None (Some err) s
            | Inr info \<Rightarrow> walk w fn root info (lstat_tree w root) s) of
        (err, s') \<Rightarrow> (if err = Some SkipDir \<or> err = Some SkipAll then None else err, s'))"

subsection \<open>GetProjectStructure and GetRelevantFiles\<close>

definition newline :: string where
  "newline = [CHR 0x0A]"

text \<open>The callback of lines 146 to 180; the state is the \<^verbatim>\<open>strings.Builder\<close>.\<close>

definition structure_fn :: "world \<Rightarrow> ContextManager \<Rightarrow> string WalkFunc" where
  "structure_fn w cm path info err result =
     (case err of
        Some e \<Rightarrow> (Some e, result)
      | None \<Rightarrow>
          if path \<noteq> rootPath cm \<and> ShouldIgnore w cm path then
            (case info of
               None \<Rightarrow> (Some NilPointerPanic, result)
             | Some i \<Rightarrow> if fiIsDir i then (Some SkipDir, result) else (None, result))
          else
            (case filepath_Rel w (rootPath cm) path of
               Inl e \<Rightarrow> (Some e, result)
             | Inr relPath \<Rightarrow>
                 if relPath = ''.'' then (None, result)
                 else
                   (let depth = length (Split relPath [PathSeparator]) - 1;
                        indent = Repeat ''  '' depth
                    in case info of
                         None \<Rightarrow> (Some NilPointerPanic, result)
                       | Some i \<Rightarrow>
                           if fiIsDir i
                           then (None, result @ indent @ fiName i @ ''/'' @ newline)
                           else (None, result @ indent @ fiName i @ newline))))"

definition GetProjectStructure :: "world \<Rightarrow> ContextManager \<Rightarrow> error + string" where
  "GetProjectStructure w cm =
     (case Walk w (rootPath cm) (structure_fn w cm) (''Project Structure:'' @ newline) of
        (Some err, result) \<Rightarrow> Inl err
      | (None, result) \<Rightarrow> Inr result)"

text \<open>
  \<^verbatim>\<open>relPath, _ := filepath.Rel(...)\<close>: the error is dropped, and with an error
  \<^verbatim>\<open>Rel\<close> returns the empty string.
\<close>

definition rel_or_empty :: "world \<Rightarrow> string \<Rightarrow> string \<Rightarrow> string" where
  "rel_or_empty w root path = (case filepath_Rel w root path of Inl e \<Rightarrow> [] | Inr r \<Rightarrow> r)"

text \<open>The callback of lines 193 to 224; the state is \<^verbatim>\<open>relevantFiles\<close>.\<close>

definition relevant_fn ::
  "world \<Rightarrow> ContextManager \<Rightarrow> string \<Rightarrow> int \<Rightarrow> (string list) WalkFunc" where
  "relevant_fn w cm query maxFiles path info err relevantFiles =
     (case err of
        Some e \<Rightarrow> (None, relevantFiles)
      | None \<Rightarrow>
          (case info of
             None \<Rightarrow> (Some NilPointerPanic, relevantFiles)
           | Some i \<Rightarrow>
               if fiIsDir i then
                 (if ShouldIgnore w cm path then (Some SkipDir, relevantFiles)
                  else (None, relevantFiles))
               else if ShouldIgnore w cm path then (None, relevantFiles)
               else
                 (let relPath = rel_or_empty w (rootPath cm) path;
                      relevantFiles' =
                        (if Contains (strings_ToLower w relPath) (strings_ToLower w query)
                         then relevantFiles @ [path] else relevantFiles)
                  in if int (length relevantFiles') \<ge> maxFiles
                     then (Some SkipDir, relevantFiles')
                     else (None, relevantFiles'))))"

definition GetRelevantFiles ::
  "world \<Rightarrow> ContextManager \<Rightarrow> string \<Rightarrow> int \<Rightarrow> string list \<times> error option" where
  "GetRelevantFiles w cm query maxFiles =
     (case Walk w (rootPath cm) (relevant_fn w cm query maxFiles) [] of
        (err, relevantFiles) \<Rightarrow> (relevantFiles, err))"

subsection \<open>findRelatedFiles\<close>

text \<open>The double quote, the single quote and the carriage return of the Go literals.\<close>

definition dquote :: char where "dquote = CHR 0x22"
definition squote :: char where "squote = CHR 0x27"
definition creturn :: char where "creturn = CHR 0x0D"

text \<open>
  Lines 301 to 305 and 377 to 381: the entries of a directory that are not directories and
  have the extension, joined to the directory.
\<close>

definition source_files_in :: "world \<Rightarrow> string \<Rightarrow> string \<Rightarrow> DirEntry list \<Rightarrow> string list" where
  "source_files_in w ext resolved entries =
     map (\<lambda>entry. filepath_Join w resolved (deName entry))
         (filter (\<lambda>entry. \<not> deIsDir entry \<and> Ext (deName entry) = ext) entries)"

text \<open>Lines 281 to 310: what one line of a Go file adds.\<close>

definition go_import_line :: "world \<Rightarrow> string \<Rightarrow> string \<Rightarrow> string list" where
  "go_import_line w dir line0 =
     (let line = strings_TrimSpace w line0
      in if HasPrefix line ''import '' \<or> (HasPrefix line ''import('' \<and> \<not> HasSuffix line '')'') then
           if HasPrefix line ''import ('' then []
           else if HasPrefix line (''import '' @ [dquote]) then
             (let importPath = Trim (TrimPrefix line ''import '') [dquote]
              in if HasPrefix importPath ''./'' \<or> HasPrefix importPath ''../'' then
                   (let resolvedPath = filepath_Join w dir importPath
                    in case os_Stat w resolvedPath of
                         Inl err \<Rightarrow> []
                       | Inr info \<Rightarrow>
                           if \<not> fiIsDir info then [resolvedPath]
                           else (case os_ReadDir w resolvedPath of
                                   Inl err \<Rightarrow> []
                                 | Inr entries \<Rightarrow> source_files_in w ''.go'' resolvedPath entries))
                 else [])
           else []
         else [])"

text \<open>Lines 340 to 346: the first of the extensions with which the path is a file.\<close>

fun first_with_ext :: "world \<Rightarrow> string \<Rightarrow> string list \<Rightarrow> string list" where
  "first_with_ext w resolvedPath [] = []"
| "first_with_ext w resolvedPath (ext # exts) =
     (case os_Stat w (resolvedPath @ ext) of
        Inl err \<Rightarrow> first_with_ext w resolvedPath exts
      | Inr info \<Rightarrow>
          if \<not> fiIsDir info then [resolvedPath @ ext]
          else first_with_ext w resolvedPath exts)"

text \<open>
  Lines 318 to 327: the import path of a trimmed line that begins with \<^verbatim>\<open>import\<close> or
  \<^verbatim>\<open>require(\<close>; it stays empty when an \<^verbatim>\<open>import\<close> has no \<^verbatim>\<open>from\<close>.
\<close>

definition js_import_path :: "world \<Rightarrow> string \<Rightarrow> string" where
  "js_import_path w line =
     (if HasPrefix line ''import '' then
        (let parts = Split line ''from''
         in if length parts > 1
            then Trim (strings_TrimSpace w (parts ! 1))
                   [squote, dquote, CHR '';'', creturn, CHR 0x0A]
            else [])
      else if HasPrefix line ''require('' then
        Trim (strings_TrimSpace w (TrimSuffix (TrimPrefix line ''require('') '');''))
             [squote, dquote]
      else [])"

text \<open>Lines 316 to 349: what one line of a JavaScript or TypeScript file adds.\<close>

definition js_import_line :: "world \<Rightarrow> string \<Rightarrow> string \<Rightarrow> string list" where
  "js_import_line w dir line0 =
     (let line = strings_TrimSpace w line0
      in if HasPrefix line ''import '' \<or> HasPrefix line ''require('' then
           (let importPath = js_import_path w line
            in if importPath \<noteq> [] \<and>
                  (HasPrefix importPath ''./'' \<or> HasPrefix importPath ''../'') then
                 (let resolvedPath = filepath_Join w dir importPath
                  in case os_Stat w resolvedPath of
                       Inr info \<Rightarrow> if \<not> fiIsDir info then [resolvedPath] else []
                     | Inl err \<Rightarrow>
                         first_with_ext w resolvedPath [''.js'', ''.ts'', ''.jsx'', ''.tsx''])
               else [])
         else [])"

text \<open>Lines 355 to 386: what one line of a Python file adds.\<close>

definition py_import_line :: "world \<Rightarrow> string \<Rightarrow> string \<Rightarrow> string list" where
  "py_import_line w dir line0 =
     (let line = strings_TrimSpace w line0
      in if HasPrefix line ''import '' \<or> HasPrefix line ''from '' then
           if HasPrefix line ''from '' then
             (case Split line ''import'' of
                [] \<Rightarrow> []
              | part0 # rest \<Rightarrow>
                  (let module = strings_TrimSpace w (TrimPrefix part0 ''from '')
                   in if HasPrefix module ''.'' then
                        (let modulePath =
                               (if module = ''.'' then [] else ReplaceAll module ''.'' ''/'');
                             resolvedDir = filepath_Join w dir modulePath
                         in case os_ReadDir w resolvedDir of
                              Inl err \<Rightarrow> []
                            | Inr entries \<Rightarrow> source_files_in w ''.py'' resolvedDir entries)
                      else []))
           else []
         else [])"

text \<open>Lines 391 to 408: the files of the same directory with the same name without extension.\<close>

definition sibling_files :: "world \<Rightarrow> string \<Rightarrow> string \<Rightarrow> string \<Rightarrow> string list" where
  "sibling_files w filePath ext dir =
     (let baseName = Base filePath;
          baseWithoutExt = TrimSuffix baseName ext
      in case os_ReadDir w dir of
           Inl err \<Rightarrow> []
         | Inr entries \<Rightarrow>
             map (\<lambda>entry. filepath_Join w dir (deName entry))
                 (filter (\<lambda>entry. \<not> deIsDir entry \<and>
                            TrimSuffix (deName entry) (Ext (deName entry)) = baseWithoutExt \<and>
                            deName entry \<noteq> baseName) entries))"

text \<open>The receiver is not used by the Go method, and is left out.\<close>

definition findRelatedFiles :: "world \<Rightarrow> string \<Rightarrow> string \<Rightarrow> string list" where
  "findRelatedFiles w filePath content =
     (let ext = Ext filePath;
          dir = filepath_Dir w filePath;
          imports =
            (if ext = ''.go'' then concat (map (go_import_line w dir) (Split content newline))
             else if ext = ''.js'' \<or> ext = ''.ts''
               then concat (map (js_import_line w dir) (Split content newline))
             else if ext = ''.py''
               then concat (map (py_import_line w dir) (Split content newline))
             else [])
      in imports @ sibling_files w filePath ext dir)"

subsection \<open>GetFileContext\<close>

text \<open>
  The \<^verbatim>\<open>strings.Builder\<close> is the list of the strings written to it, one per call of
  \<^verbatim>\<open>WriteString\<close>, each with the kind of section it is and the file it is about;
  \<^verbatim>\<open>String()\<close> is their concatenation and \<^verbatim>\<open>Len()\<close> its length.
\<close>

datatype section_kind = Primary | Related | Notice

datatype ctx_section = Section (sec_kind: section_kind) (sec_path: string) (sec_text: string)

definition String :: "ctx_section list \<Rightarrow> string" where
  "String b = concat (map sec_text b)"

definition Len :: "ctx_section list \<Rightarrow> int" where
  "Len b = int (length (String b))"

definition fence :: string where
  "fence = [CHR 0x60, CHR 0x60, CHR 0x60]"

definition primary_block :: "string \<Rightarrow> string \<Rightarrow> string" where
  "primary_block relPath content =
     ''File: '' @ relPath @ newline @ newline @ fence @ newline @ content @ newline @ fence
       @ newline @ newline"

definition related_block :: "string \<Rightarrow> string \<Rightarrow> string" where
  "related_block relPath relatedContent =
     ''Related file: '' @ relPath @ newline @ newline @ fence @ newline @ relatedContent
       @ newline @ fence @ newline @ newline"

definition truncation_notice :: "string \<Rightarrow> string" where
  "truncation_notice relPath =
     ''(Additional related file '' @ relPath
       @ '' not included due to context length limits)'' @ newline"

text \<open>The loop of lines 248 to 265, with its three variables.\<close>

fun related_loop ::
  "world \<Rightarrow> string list \<Rightarrow> ctx_section list \<Rightarrow> int \<Rightarrow> ContextManager
     \<Rightarrow> ctx_section list \<times> int \<times> ContextManager" where
  "related_loop w [] context totalLength cm = (context, totalLength, cm)"
| "related_loop w (relatedFile # rest) context totalLength cm =
     (case GetFileContent w cm relatedFile of
        (Inl err, cm', calls) \<Rightarrow> related_loop w rest context totalLength cm'
      | (Inr relatedContent, cm', calls) \<Rightarrow>
          (let relPath = rel_or_empty w (rootPath cm') relatedFile;
               fileContext = related_block relPath relatedContent
           in if totalLength + int (length fileContext) > maxContextLen cm' then
                related_loop w rest
                  (context @ [Section Notice relatedFile (truncation_notice relPath)])
                  totalLength cm'
              else
                related_loop w rest (context @ [Section Related relatedFile fileContext])
                  (totalLength + int (length fileContext)) cm'))"

text \<open>\<^verbatim>\<open>GetFileContext\<close> up to its last line: the builder, the running total, the struct.\<close>

definition assemble ::
  "world \<Rightarrow> ContextManager \<Rightarrow> string
     \<Rightarrow> (error + ctx_section list \<times> int) \<times> ContextManager" where
  "assemble w cm filePath =
     (case GetFileContent w cm filePath of
        (Inl err, cm1, calls) \<Rightarrow> (Inl err, cm1)
      | (Inr content, cm1, calls) \<Rightarrow>
          (let relPath = rel_or_empty w (rootPath cm1) filePath;
               context = [Section Primary filePath (primary_block relPath content)];
               relatedFiles = findRelatedFiles w filePath content;
               totalLength = Len context
           in case related_loop w relatedFiles context totalLength cm1 of
                (context', totalLength', cm2) \<Rightarrow> (Inr (context', totalLength'), cm2)))"

definition GetFileContext ::
  "world \<Rightarrow> ContextManager \<Rightarrow> string \<Rightarrow> (error + string) \<times> ContextManager" where
  "GetFileContext w cm filePath =
     (case assemble w cm filePath of
        (Inl err, cm') \<Rightarrow> (Inl err, cm')
      | (Inr (context, totalLength), cm') \<Rightarrow> (Inr (String context), cm'))"

subsection \<open>Sizes of the sections of an assembled context\<close>

definition size_of_kind :: "section_kind \<Rightarrow> ctx_section list \<Rightarrow> int" where
  "size_of_kind k b = (\<Sum>s\<leftarrow>filter (\<lambda>s. sec_kind s = k) b. int (length (sec_text s)))"

definition largest_notice :: "ctx_section list \<Rightarrow> int" where
  "largest_notice b =
     fold max (map (\<lambda>s. int (length (sec_text s))) (filter (\<lambda>s. sec_kind s = Notice) b)) 0"

definition assembled_sections :: "world \<Rightarrow> ContextManager \<Rightarrow> string \<Rightarrow> ctx_section list" where
  "assembled_sections w cm filePath =
     (case fst (assemble w cm filePath) of Inl err \<Rightarrow> [] | Inr (context, totalLength) \<Rightarrow> context)"

definition running_total :: "world \<Rightarrow> ContextManager \<Rightarrow> string \<Rightarrow> int" where
  "running_total w cm filePath =
     (case fst (assemble w cm filePath) of Inl err \<Rightarrow> 0 | Inr (context, totalLength) \<Rightarrow> totalLength)"

text \<open>
  The condition of \<^verbatim>\<open>GetFileContent\<close>'s fast path, as the specification words it: there is
  an entry for the path, and its time is the time the file has on disk now.
\<close>

definition entry_is_current :: "world \<Rightarrow> ContextManager \<Rightarrow> string \<Rightarrow> bool" where
  "entry_is_current w cm filePath =
     (case (fileCache cm filePath, fileMtimes cm filePath, os_Stat w filePath) of
        (Some content, Some mtime, Inr info) \<Rightarrow> mtime = fiModTime info
      | _ \<Rightarrow> False)"

subsection \<open>A small world for the examples\<close>

text \<open>
  Files with content and modification time, directories with their entries, and the tree
  that a walk sees. The functions of the standard library are given on the paths of the
  examples only: clean absolute paths below the root, names without separators, ASCII text.
\<close>

definition no_such_file :: error where
  "no_such_file = Err ''no such file or directory''"

definition ex_Stat ::
  "(string \<times> string \<times> 64 word) list \<Rightarrow> (string \<times> DirEntry list) list \<Rightarrow> string
     \<Rightarrow> error + FileInfo" where
  "ex_Stat files dirs path =
     (case map_of files path of
        Some (content, mtime) \<Rightarrow> Inr \<lparr>fiName = Base path, fiIsDir = False, fiModTime = mtime\<rparr>
      | None \<Rightarrow>
          (case map_of dirs path of
             Some entries \<Rightarrow> Inr \<lparr>fiName = Base path, fiIsDir = True, fiModTime = 0\<rparr>
           | None \<Rightarrow> Inl no_such_file))"

definition ex_ReadFile :: "(string \<times> string \<times> 64 word) list \<Rightarrow> string \<Rightarrow> error + string" where
  "ex_ReadFile files path =
     (case map_of files path of
        Some (content, mtime) \<Rightarrow> Inr content
      | None \<Rightarrow> Inl no_such_file)"

definition ex_ReadDir :: "(string \<times> DirEntry list) list \<Rightarrow> string \<Rightarrow> error + DirEntry list" where
  "ex_ReadDir dirs path =
     (case map_of dirs path of Some entries \<Rightarrow> Inr entries | None \<Rightarrow> Inl no_such_file)"

text \<open>\<^verbatim>\<open>Join(dir, elem)\<close> where \<open>elem\<close> is empty, a name, \<^verbatim>\<open>./name\<close> or \<^verbatim>\<open>/name\<close>.\<close>

definition ex_Join :: "string \<Rightarrow> string \<Rightarrow> string" where
  "ex_Join dir elem =
     (let e = (if HasPrefix elem ''./'' then drop 2 elem
               else if HasPrefix elem ''/'' then drop 1 elem else elem)
      in if e = [] then dir else dir @ ''/'' @ e)"

text \<open>\<^verbatim>\<open>Rel(root, path)\<close> where \<open>path\<close> is the root or lies below it.\<close>

definition ex_Rel :: "string \<Rightarrow> string \<Rightarrow> error + string" where
  "ex_Rel root path =
     (if path = root then Inr ''.''
      else if HasPrefix path (root @ ''/'') then Inr (drop (length root + 1) path)
      else Inl (Err ''Rel: not below the root''))"

text \<open>\<^verbatim>\<open>Dir(path)\<close> where \<open>path\<close> has a directory part that is not the root directory.\<close>

definition ex_Dir :: "string \<Rightarrow> string" where
  "ex_Dir path = rev (drop 1 (dropWhile (\<lambda>c. c \<noteq> PathSeparator) (rev path)))"

text \<open>\<^verbatim>\<open>Match(pattern, name)\<close> where the pattern is a literal name or a star and a literal.\<close>

definition ex_Match :: "string \<Rightarrow> string \<Rightarrow> error + bool" where
  "ex_Match pattern name =
     (if HasPrefix pattern ''*'' then Inr (HasSuffix name (drop 1 pattern))
      else Inr (pattern = name))"

definition ex_TrimSpace :: "string \<Rightarrow> string" where
  "ex_TrimSpace s = Trim s [CHR '' '', CHR 0x09, CHR 0x0A, CHR 0x0B, CHR 0x0C, CHR 0x0D]"

definition ex_ToLower :: "string \<Rightarrow> string" where
  "ex_ToLower s =
     map (\<lambda>c. case map_of (zip ''ABCDEFGHIJKLMNOPQRSTUVWXYZ'' ''abcdefghijklmnopqrstuvwxyz'') c of
                 Some l \<Rightarrow> l | None \<Rightarrow> c) s"

definition example_world ::
  "(string \<times> string \<times> 64 word) list \<Rightarrow> (string \<times> DirEntry list) list \<Rightarrow> fsnode \<Rightarrow> world" where
  "example_world files dirs tree =
     \<lparr> os_Stat = ex_Stat files dirs, os_ReadFile = ex_ReadFile files,
       os_ReadDir = ex_ReadDir dirs, lstat_tree = (\<lambda>root. tree),
       filepath_Join = ex_Join, filepath_Rel = ex_Rel, filepath_Dir = ex_Dir,
       filepath_Match = ex_Match, strings_TrimSpace = ex_TrimSpace,
       strings_ToLower = ex_ToLower \<rparr>"

definition file_node :: "string \<Rightarrow> 64 word \<Rightarrow> fsnode" where
  "file_node name mtime =
     FsNode name (Inr \<lparr>fiName = name, fiIsDir = False, fiModTime = mtime\<rparr>) None []"

definition dir_node :: "string \<Rightarrow> fsnode list \<Rightarrow> fsnode" where
  "dir_node name entries =
     FsNode name (Inr \<lparr>fiName = name, fiIsDir = True, fiModTime = 0\<rparr>) None entries"

definition file_entry :: "string \<Rightarrow> DirEntry" where
  "file_entry name = \<lparr>deName = name, deIsDir = False\<rparr>"

definition dir_entry :: "string \<Rightarrow> DirEntry" where
  "dir_entry name = \<lparr>deName = name, deIsDir = True\<rparr>"

text \<open>
  A section that the loop of \<^verbatim>\<open>GetFileContext\<close> writes for a related file: its fenced
  block, or the notice that names it.
\<close>

definition rendered :: "world \<Rightarrow> string \<Rightarrow> ctx_section \<Rightarrow> bool" where
  "rendered w root s =
     (case sec_kind s of
        Primary \<Rightarrow> False
      | Related \<Rightarrow> (\<exists>c. sec_text s = related_block (rel_or_empty w root (sec_path s)) c)
      | Notice \<Rightarrow> sec_text s = truncation_notice (rel_or_empty w root (sec_path s)))"

text \<open>
  A primary file larger than the budget, with one sibling; and a primary file with a large
  and a small sibling, the budget being the primary block and the small block together.
\<close>

definition big_primary_world :: world where
  "big_primary_world =
     example_world
       [(''/p/notes.txt'', replicate 200 (CHR ''x''), 1), (''/p/notes.md'', ''hello'', 1)]
       [(''/p'', [file_entry ''notes.md'', file_entry ''notes.txt''])]
       (dir_node ''p'' [file_node ''notes.md'' 1, file_node ''notes.txt'' 1])"

definition big_primary_cm :: ContextManager where
  "big_primary_cm = SetMaxContextLength (NewContextManager big_primary_world ''/p'') 64"

definition two_siblings_world :: world where
  "two_siblings_world =
     example_world
       [(''/p/a.txt'', ''main'', 1), (''/p/a.md'', replicate 100 (CHR ''m''), 1),
        (''/p/a.rst'', ''s'', 1)]
       [(''/p'', [file_entry ''a.md'', file_entry ''a.rst'', file_entry ''a.txt''])]
       (dir_node ''p'' [file_node ''a.md'' 1, file_node ''a.rst'' 1, file_node ''a.txt'' 1])"

definition two_siblings_cm :: ContextManager where
  "two_siblings_cm = SetMaxContextLength (NewContextManager two_siblings_world ''/p'') 59"

text \<open>
  One file that is rewritten with a later modification time, a struct that has read the
  first version, and a world in which the file is gone.
\<close>

definition cache_world_v1 :: world where
  "cache_world_v1 =
     example_world [(''/p/a.go'', ''v1'', 1)] [(''/p'', [file_entry ''a.go''])]
       (dir_node ''p'' [file_node ''a.go'' 1])"

definition cache_world_v2 :: world where
  "cache_world_v2 =
     example_world [(''/p/a.go'', ''v2'', 2)] [(''/p'', [file_entry ''a.go''])]
       (dir_node ''p'' [file_node ''a.go'' 2])"

definition empty_world :: world where
  "empty_world = example_world [] [(''/p'', [])] (dir_node ''p'' [])"

definition fresh_cm :: ContextManager where
  "fresh_cm = NewContextManager cache_world_v1 ''/p''"

definition warm_cm :: ContextManager where
  "warm_cm = fst (snd (GetFileContent cache_world_v1 fresh_cm ''/p/a.go''))"

text \<open>
  Two directories with files whose names contain \<^verbatim>\<open>x\<close>; and a root with an entry on
  which \<^verbatim>\<open>Lstat\<close> fails, next to a file that can be read.
\<close>

definition two_dirs_world :: world where
  "two_dirs_world =
     example_world
       [(''/p/a/x1'', ''one'', 1), (''/p/a/x2'', ''two'', 1), (''/p/b/x1'', ''three'', 1)]
       [(''/p'', [dir_entry ''a'', dir_entry ''b'']),
        (''/p/a'', [file_entry ''x1'', file_entry ''x2'']),
        (''/p/b'', [file_entry ''x1''])]
       (dir_node ''p''
          [dir_node ''a'' [file_node ''x1'' 1, file_node ''x2'' 1], dir_node ''b'' [file_node ''x1'' 1]])"

definition two_dirs_cm :: ContextManager where
  "two_dirs_cm = NewContextManager two_dirs_world ''/p''"

definition permission_denied :: error where
  "permission_denied = Err ''permission denied''"

definition broken_entry_world :: world where
  "broken_entry_world =
     example_world [(''/p/a.go'', ''package p'', 1), (''/p/ok.go'', ''package p'', 1)]
       [(''/p'', [file_entry ''a.go'', file_entry ''locked'', file_entry ''ok.go''])]
       (dir_node ''p''
          [file_node ''a.go'' 1, FsNode ''locked'' (Inl permission_denied) None [],
           file_node ''ok.go'' 1])"

definition broken_entry_cm :: ContextManager where
  "broken_entry_cm = NewContextManager broken_entry_world ''/p''"

text \<open>
  A root with a directory that holds a file and a directory whose names cannot be read.
\<close>

definition deep_fault_world :: world where
  "deep_fault_world =
     example_world
       [(''/p/a.go'', ''package p'', 1), (''/p/sub/inner.go'', ''package sub'', 1),
        (''/p/z.go'', ''package p'', 1)]
       [(''/p'', [file_entry ''a.go'', dir_entry ''sub'', file_entry ''z.go'']),
        (''/p/sub'', [file_entry ''inner.go'', dir_entry ''sealed'']),
        (''/p/sub/sealed'', [])]
       (dir_node ''p''
          [file_node ''a.go'' 1,
           dir_node ''sub''
             [file_node ''inner.go'' 1,
              FsNode ''sealed'' (Inr \<lparr>fiName = ''sealed'', fiIsDir = True, fiModTime = 0\<rparr>)
                (Some permission_denied) []],
           file_node ''z.go'' 1])"

definition deep_fault_cm :: ContextManager where
  "deep_fault_cm = NewContextManager deep_fault_world ''/p''"





text \<open>
  The calls of \<^verbatim>\<open>GetFileContent\<close> that the loop of \<^verbatim>\<open>GetFileContext\<close> makes (line 249),
  in order and with the struct passed from one to the next: the related files whose content
  is fetched, each with the content that was returned.
\<close>

fun fetched :: "world \<Rightarrow> ContextManager \<Rightarrow> string list \<Rightarrow> (string \<times> string) list" where
  "fetched w cm [] = []"
| "fetched w cm (relatedFile # rest) =
     (case GetFileContent w cm relatedFile of
        (Inl err, cm', calls) \<Rightarrow> fetched w cm' rest
      | (Inr relatedContent, cm', calls) \<Rightarrow>
          (relatedFile, relatedContent) # fetched w cm' rest)"

text \<open>
  What the specification, as amended, asks of the sections after the primary one: for the
  fetched files in order, the block when it fits under the budget with the blocks written so
  far, and the notice otherwise; a notice changes nothing for the files after it.
\<close>

fun placed :: "world \<Rightarrow> string \<Rightarrow> int \<Rightarrow> int \<Rightarrow> (string \<times> string) list \<Rightarrow> ctx_section list" where
  "placed w root budget t [] = []"
| "placed w root budget t ((f, c) # rest) =
     (if t + int (length (related_block (rel_or_empty w root f) c)) > budget
      then Section Notice f (truncation_notice (rel_or_empty w root f))
             # placed w root budget t rest
      else Section Related f (related_block (rel_or_empty w root f) c)
             # placed w root budget
                 (t + int (length (related_block (rel_or_empty w root f) c))) rest)"

text \<open>The files of a list that \<^verbatim>\<open>os.ReadFile\<close> can read, each with its content on disk.\<close>

fun on_disk :: "world \<Rightarrow> string list \<Rightarrow> (string \<times> string) list" where
  "on_disk w [] = []"
| "on_disk w (f # fs) =
     (case os_ReadFile w f of
        Inl err \<Rightarrow> on_disk w fs
      | Inr c \<Rightarrow> (f, c) # on_disk w fs)"

text \<open>
  A cache that agrees with the world: a current entry holds the content that is on disk.
  The cache of a new struct is empty, and agrees with every world.
\<close>

definition coherent :: "world \<Rightarrow> ContextManager \<Rightarrow> bool" where
  "coherent w cm =
     (\<forall>p. entry_is_current w cm p \<longrightarrow> (\<exists>c. fileCache cm p = Some c \<and> os_ReadFile w p = Inr c))"

text \<open>
  An error that the operating system or \<^verbatim>\<open>filepath.Rel\<close> can return: not one of the
  values by which a callback steers \<^verbatim>\<open>filepath.Walk\<close>. A tree all of whose errors are of
  that kind.
\<close>

definition genuine :: "error \<Rightarrow> bool" where
  "genuine e = (e \<noteq> SkipDir \<and> e \<noteq> SkipAll)"

fun genuine_tree :: "fsnode \<Rightarrow> bool" where
  "genuine_tree (FsNode nm ls rderr kids) =
     ((case ls of Inl e \<Rightarrow> genuine e | Inr info \<Rightarrow> True) \<and>
      (case rderr of Some e \<Rightarrow> genuine e | None \<Rightarrow> True) \<and>
      (\<forall>k \<in> set kids. genuine_tree k))"

definition genuine_Rel :: "world \<Rightarrow> bool" where
  "genuine_Rel w = (\<forall>base target e. filepath_Rel w base target = Inl e \<longrightarrow> genuine e)"

text \<open>
  The part of a tree that the walk of \<^verbatim>\<open>GetProjectStructure\<close> goes through (everything
  but the ignored files and what lies below an ignored directory) holds an entry on which
  \<^verbatim>\<open>Lstat\<close> fails, a directory whose names cannot be read, or an entry for which
  \<^verbatim>\<open>filepath.Rel\<close> fails.
\<close>

fun walk_fault :: "world \<Rightarrow> ContextManager \<Rightarrow> string \<Rightarrow> fsnode \<Rightarrow> bool" where
  "walk_fault w cm path (FsNode nm ls rderr kids) =
     (case ls of
        Inl e \<Rightarrow> True
      | Inr info \<Rightarrow>
          if fiIsDir info \<and> rderr \<noteq> None then True
          else if path \<noteq> rootPath cm \<and> ShouldIgnore w cm path then False
          else (case filepath_Rel w (rootPath cm) path of
                  Inl e \<Rightarrow> True
                | Inr relPath \<Rightarrow>
                    fiIsDir info \<and>
                    (\<exists>k \<in> set kids. walk_fault w cm (filepath_Join w path (node_name k)) k)))"

text \<open>
  An entry on which \<^verbatim>\<open>Lstat\<close> fails or a directory whose names cannot be read; and a
  tree without such entries below its root.
\<close>

definition faulty :: "fsnode \<Rightarrow> bool" where
  "faulty k =
     (case node_lstat k of
        Inl e \<Rightarrow> True
      | Inr info \<Rightarrow> fiIsDir info \<and> node_readdir_err k \<noteq> None)"

fun prune :: "fsnode \<Rightarrow> fsnode" where
  "prune (FsNode nm ls rderr kids) =
     FsNode nm ls rderr (map prune (filter (\<lambda>k. \<not> faulty k) kids))"

text \<open>A callback that returns nothing but nil and \<^verbatim>\<open>SkipDir\<close> when \<^verbatim>\<open>Walk\<close> calls it.\<close>

definition skips_only :: "'s WalkFunc \<Rightarrow> bool" where
  "skips_only fn =
     (\<forall>path info err s. (info \<noteq> None \<or> err \<noteq> None)
        \<longrightarrow> fst (fn path info err s) = None \<or> fst (fn path info err s) = Some SkipDir)"

lemmas ex_defs = example_world_def ex_Stat_def ex_ReadFile_def ex_ReadDir_def ex_Join_def
  ex_Rel_def ex_Dir_def ex_Match_def ex_TrimSpace_def ex_ToLower_def file_node_def
  dir_node_def file_entry_def dir_entry_def no_such_file_def permission_denied_def NewContextManager_def
  SetMaxContextLength_def

lemmas str_defs = HasPrefix_def HasSuffix_def TrimPrefix_def TrimSuffix_def Trim_def Split_def
  ReplaceAll_def Repeat_def Ext_def Base_def PathSeparator_def newline_def dquote_def
  squote_def creturn_def fence_def

lemmas ctx_defs = assemble_def GetFileContext_def GetFileContent_def cache_fast_path_def
  findRelatedFiles_def sibling_files_def rel_or_empty_def primary_block_def
  related_block_def truncation_notice_def String_def Len_def assembled_sections_def
  running_total_def size_of_kind_def largest_notice_def Let_def

lemmas walk_defs = Walk_def GetRelevantFiles_def GetProjectStructure_def relevant_fn_def
  structure_fn_def ShouldIgnore_def rel_or_empty_def Let_def


section \<open>The file cache\<close>

lemma GetFileContent_miss_reads:
  "\<not> entry_is_current w cm p \<Longrightarrow> fst (GetFileContent w cm p) = os_ReadFile w p"
  by (auto simp: GetFileContent_def cache_fast_path_def entry_is_current_def
      split: option.splits sum.splits if_splits)

lemma GetFileContent_keeps_settings:
  "GetFileContent w cm p = (res, cm', calls) \<Longrightarrow>
     maxContextLen cm' = maxContextLen cm \<and> rootPath cm' = rootPath cm"
  by (auto simp: GetFileContent_def split: prod.splits option.splits sum.splits)

lemma warm_cm_eval:
  "fileCache warm_cm ''/p/a.go'' = Some ''v1'' \<and> fileMtimes warm_cm ''/p/a.go'' = Some 1"
  by (simp add: warm_cm_def fresh_cm_def cache_world_v1_def ex_defs ctx_defs)

text \<open>
  Claim C1. \<^verbatim>\<open>GetFileContent\<close> answers from the cache, without a call of
  \<^verbatim>\<open>os.ReadFile\<close>, exactly when the struct has an entry for the path whose stored time
  equals the time \<^verbatim>\<open>os.Stat\<close> reports now; then the result is the cached content and
  the struct is unchanged. In every other case the result is what \<^verbatim>\<open>os.ReadFile\<close>
  returns. Hence, after a call that returned content while the file had one modification
  time, a call in a world where the file has another modification time and can be read
  reads the file again and returns the new content.
\<close>

theorem GetFileContent_cache_hit_iff:
  "GetFileContent w cm p = (res, cm', calls) \<Longrightarrow>
     (CallReadFile p \<notin> set calls \<longleftrightarrow> entry_is_current w cm p) \<and>
     (entry_is_current w cm p \<longrightarrow> (\<exists>c. fileCache cm p = Some c \<and> res = Inr c) \<and> cm' = cm) \<and>
     (\<not> entry_is_current w cm p \<longrightarrow> res = os_ReadFile w p) \<and>
     (\<forall>w2 c1 i1 i2 c2.
        res = Inr c1 \<and> os_Stat w p = Inr i1 \<and> os_Stat w2 p = Inr i2 \<and>
        fiModTime i2 \<noteq> fiModTime i1 \<and> os_ReadFile w2 p = Inr c2
        \<longrightarrow> fst (GetFileContent w2 cm' p) = Inr c2 \<and>
            CallReadFile p \<in> set (snd (snd (GetFileContent w2 cm' p))))"
  by (auto simp: GetFileContent_def cache_fast_path_def entry_is_current_def
      split: option.splits sum.splits if_splits)

theorem GetFileContent_cache_hit_iff_witness:
  "GetFileContent cache_world_v1 fresh_cm ''/p/a.go'' =
     (Inr ''v1'', warm_cm, [CallReadFile ''/p/a.go'', CallStat ''/p/a.go'']) \<and>
   \<not> entry_is_current cache_world_v1 fresh_cm ''/p/a.go'' \<and>
   entry_is_current cache_world_v1 warm_cm ''/p/a.go'' \<and>
   GetFileContent cache_world_v1 warm_cm ''/p/a.go'' =
     (Inr ''v1'', warm_cm, [CallStat ''/p/a.go'']) \<and>
   os_Stat cache_world_v1 ''/p/a.go'' =
     Inr \<lparr>fiName = ''a.go'', fiIsDir = False, fiModTime = 1\<rparr> \<and>
   os_Stat cache_world_v2 ''/p/a.go'' =
     Inr \<lparr>fiName = ''a.go'', fiIsDir = False, fiModTime = 2\<rparr> \<and>
   os_ReadFile cache_world_v2 ''/p/a.go'' = Inr ''v2'' \<and>
   fst (GetFileContent cache_world_v2 warm_cm ''/p/a.go'') = Inr ''v2'' \<and>
   CallReadFile ''/p/a.go'' \<in> set (snd (snd (GetFileContent cache_world_v2 warm_cm ''/p/a.go'')))"
proof -
  have g1: "GetFileContent cache_world_v1 fresh_cm ''/p/a.go'' =
     (Inr ''v1'', warm_cm, [CallReadFile ''/p/a.go'', CallStat ''/p/a.go''])"
    by (simp add: warm_cm_def fresh_cm_def cache_world_v1_def ex_defs ctx_defs)
  have g2: "GetFileContent cache_world_v1 warm_cm ''/p/a.go'' =
     (Inr ''v1'', warm_cm, [CallStat ''/p/a.go''])"
    using warm_cm_eval by (simp add: cache_world_v1_def ex_defs ctx_defs)
  have s1: "os_Stat cache_world_v1 ''/p/a.go'' =
      Inr \<lparr>fiName = ''a.go'', fiIsDir = False, fiModTime = 1\<rparr>"
    by (simp add: cache_world_v1_def ex_defs str_defs)
  have s2: "os_Stat cache_world_v2 ''/p/a.go'' =
      Inr \<lparr>fiName = ''a.go'', fiIsDir = False, fiModTime = 2\<rparr>"
    by (simp add: cache_world_v2_def ex_defs str_defs)
  have r2: "os_ReadFile cache_world_v2 ''/p/a.go'' = Inr ''v2''"
    by (simp add: cache_world_v2_def ex_defs)
  note t1 = GetFileContent_cache_hit_iff [OF g1]
  note t2 = GetFileContent_cache_hit_iff [OF g2]
  from t1 s1 s2 r2 have inv: "fst (GetFileContent cache_world_v2 warm_cm ''/p/a.go'') = Inr ''v2'' \<and>
      CallReadFile ''/p/a.go'' \<in> set (snd (snd (GetFileContent cache_world_v2 warm_cm ''/p/a.go'')))"
    by fastforce
  from t1 t2 have cur: "\<not> entry_is_current cache_world_v1 fresh_cm ''/p/a.go'' \<and>
      entry_is_current cache_world_v1 warm_cm ''/p/a.go''"
    by simp
  from g1 g2 inv cur s1 s2 r2 show ?thesis by simp
qed

text \<open>
  Claim C9. When \<^verbatim>\<open>os.ReadFile\<close> fails on the path, a call of \<^verbatim>\<open>GetFileContent\<close>
  that reads the file returns that error, and the struct, with both of its maps, is what
  it was before the call. The file is read unless a current cache entry answers (claim C1).
\<close>

theorem GetFileContent_read_error:
  "os_ReadFile w p = Inl err \<Longrightarrow> GetFileContent w cm p = (res, cm', calls) \<Longrightarrow>
     cm' = cm \<and> (CallReadFile p \<in> set calls \<longrightarrow> res = Inl err) \<and>
     (\<not> entry_is_current w cm p \<longrightarrow> res = Inl err)"
  by (auto simp: GetFileContent_def cache_fast_path_def entry_is_current_def
      split: option.splits sum.splits if_splits)

theorem GetFileContent_read_error_witness:
  "os_ReadFile empty_world ''/p/a.go'' = Inl no_such_file \<and>
   GetFileContent empty_world warm_cm ''/p/a.go'' =
     (Inl no_such_file, warm_cm, [CallStat ''/p/a.go'', CallReadFile ''/p/a.go''])"
proof -
  have h: "os_ReadFile empty_world ''/p/a.go'' = Inl no_such_file"
    by (simp add: empty_world_def ex_defs)
  have s: "os_Stat empty_world ''/p/a.go'' = Inl no_such_file"
    by (simp add: empty_world_def ex_defs)
  obtain res cm' calls
    where g: "GetFileContent empty_world warm_cm ''/p/a.go'' = (res, cm', calls)"
    by (cases "GetFileContent empty_world warm_cm ''/p/a.go''") auto
  have c: "calls = [CallStat ''/p/a.go'', CallReadFile ''/p/a.go'']"
    using g h s warm_cm_eval by (simp add: GetFileContent_def cache_fast_path_def)
  from GetFileContent_read_error [OF h g] c g h show ?thesis by simp
qed

section \<open>The ignore matcher\<close>

text \<open>
  Claim C8. When \<^verbatim>\<open>os.Stat\<close> fails on a path, \<^verbatim>\<open>ShouldIgnore\<close> returns false,
  whatever the directory names and the file patterns of the struct are. In the example the
  base name matches the pattern \<^verbatim>\<open>*.log\<close>, and the path is still not ignored.
\<close>

theorem ShouldIgnore_stat_error:
  "os_Stat w path = Inl err \<Longrightarrow> ShouldIgnore w cm path = False"
  by (simp add: ShouldIgnore_def)

theorem ShouldIgnore_stat_error_witness:
  "os_Stat cache_world_v1 ''/p/gone.log'' = Inl no_such_file \<and>
   matches_any cache_world_v1 (ignoreFiles fresh_cm) (Base ''/p/gone.log'') \<and>
   ShouldIgnore cache_world_v1 fresh_cm ''/p/gone.log'' = False"
proof -
  have h: "os_Stat cache_world_v1 ''/p/gone.log'' = Inl no_such_file"
    by (simp add: cache_world_v1_def ex_defs)
  have m: "matches_any cache_world_v1 (ignoreFiles fresh_cm) (Base ''/p/gone.log'')"
    by (simp add: cache_world_v1_def fresh_cm_def ex_defs str_defs)
  from h m ShouldIgnore_stat_error [OF h, of fresh_cm] show ?thesis by simp
qed

section \<open>The context assembler\<close>

lemma size_of_kind_append:
  "size_of_kind k (xs @ ys) = size_of_kind k xs + size_of_kind k ys"
  by (simp add: size_of_kind_def)

lemma size_of_kind_Nil: "size_of_kind k [] = 0"
  by (simp add: size_of_kind_def)

lemma size_of_kind_Cons:
  "size_of_kind k (s # ss) =
     (if sec_kind s = k then int (length (sec_text s)) else 0) + size_of_kind k ss"
  by (simp add: size_of_kind_def)

lemma size_of_kind_absent:
  "\<forall>s \<in> set b. sec_kind s \<noteq> k \<Longrightarrow> size_of_kind k b = 0"
  by (induction b) (simp_all add: size_of_kind_Nil size_of_kind_Cons)

lemma Len_by_kind:
  "Len b = size_of_kind Primary b + size_of_kind Related b + size_of_kind Notice b"
proof (induction b)
  case Nil
  then show ?case by (simp add: Len_def String_def size_of_kind_Nil)
next
  case (Cons s b)
  then show ?case
    by (cases "sec_kind s") (simp_all add: Len_def String_def size_of_kind_Cons)
qed

lemma fold_max_lower: "(a::int) \<le> fold max xs a"
proof (induction xs arbitrary: a)
  case Nil
  then show ?case by simp
next
  case (Cons x xs)
  have "a \<le> max x a" by simp
  also have "\<dots> \<le> fold max xs (max x a)" by (rule Cons.IH)
  finally show ?case by simp
qed

lemma largest_notice_nonneg: "0 \<le> largest_notice b"
  by (simp add: largest_notice_def fold_max_lower)

lemma rendered_not_Primary: "rendered w root s \<Longrightarrow> sec_kind s \<noteq> Primary"
  by (auto simp: rendered_def)

text \<open>
  What the loop appends to the builder: for each related file whose content it gets, in
  order, the block or the notice; the running total grows by the blocks only, and is within
  the budget once a block is written.
\<close>

lemma related_loop_added:
  "related_loop w fs ctx t cm = (ctx', t', cm') \<Longrightarrow>
     \<exists>added. ctx' = ctx @ added \<and>
       (\<forall>s \<in> set added. rendered w (rootPath cm) s) \<and>
       subseq (map sec_path added) fs \<and>
       t' = t + size_of_kind Related added \<and>
       ((\<forall>s \<in> set added. sec_kind s \<noteq> Related) \<or> t' \<le> maxContextLen cm) \<and>
       maxContextLen cm' = maxContextLen cm \<and> rootPath cm' = rootPath cm"
proof (induction fs arbitrary: ctx t cm)
  case Nil
  then show ?case by (simp add: size_of_kind_Nil)
next
  case (Cons f fs)
  obtain res cm1 calls where g: "GetFileContent w cm f = (res, cm1, calls)"
    by (cases "GetFileContent w cm f") auto
  note keep = GetFileContent_keeps_settings [OF g]
  show ?case
  proof (cases res)
    case (Inl err)
    with Cons.prems g have "related_loop w fs ctx t cm1 = (ctx', t', cm')" by simp
    from Cons.IH [OF this] keep show ?thesis
      by (auto intro: subseq_Cons')
  next
    case (Inr c)
    define rp where "rp = rel_or_empty w (rootPath cm1) f"
    define blk where "blk = related_block rp c"
    show ?thesis
    proof (cases "t + int (length blk) > maxContextLen cm1")
      case True
      with Cons.prems g Inr
      have "related_loop w fs (ctx @ [Section Notice f (truncation_notice rp)]) t cm1
              = (ctx', t', cm')"
        by (simp add: rp_def blk_def Let_def)
      from Cons.IH [OF this] obtain added where a:
        "ctx' = (ctx @ [Section Notice f (truncation_notice rp)]) @ added"
        "\<forall>s \<in> set added. rendered w (rootPath cm1) s"
        "subseq (map sec_path added) fs"
        "t' = t + size_of_kind Related added"
        "(\<forall>s \<in> set added. sec_kind s \<noteq> Related) \<or> t' \<le> maxContextLen cm1"
        "maxContextLen cm' = maxContextLen cm1" "rootPath cm' = rootPath cm1"
        by blast
      let ?added = "Section Notice f (truncation_notice rp) # added"
      have "ctx' = ctx @ ?added" using a(1) by simp
      moreover have "\<forall>s \<in> set ?added. rendered w (rootPath cm) s"
        using a(2) keep by (simp add: rendered_def rp_def)
      moreover have "subseq (map sec_path ?added) (f # fs)" using a(3) by simp
      moreover have "t' = t + size_of_kind Related ?added"
        using a(4) by (simp add: size_of_kind_Cons)
      moreover have "(\<forall>s \<in> set ?added. sec_kind s \<noteq> Related) \<or> t' \<le> maxContextLen cm"
        using a(5) keep by auto
      ultimately show ?thesis using a(6,7) keep by metis
    next
      case False
      with Cons.prems g Inr
      have "related_loop w fs (ctx @ [Section Related f blk]) (t + int (length blk)) cm1
              = (ctx', t', cm')"
        by (simp add: rp_def blk_def Let_def)
      from Cons.IH [OF this] obtain added where a:
        "ctx' = (ctx @ [Section Related f blk]) @ added"
        "\<forall>s \<in> set added. rendered w (rootPath cm1) s"
        "subseq (map sec_path added) fs"
        "t' = t + int (length blk) + size_of_kind Related added"
        "(\<forall>s \<in> set added. sec_kind s \<noteq> Related) \<or> t' \<le> maxContextLen cm1"
        "maxContextLen cm' = maxContextLen cm1" "rootPath cm' = rootPath cm1"
        by blast
      let ?added = "Section Related f blk # added"
      have "ctx' = ctx @ ?added" using a(1) by simp
      moreover have "\<forall>s \<in> set ?added. rendered w (rootPath cm) s"
        using a(2) keep by (auto simp: rendered_def rp_def blk_def)
      moreover have "subseq (map sec_path ?added) (f # fs)" using a(3) by simp
      moreover have "t' = t + size_of_kind Related ?added"
        using a(4) by (simp add: size_of_kind_Cons)
      moreover have "t' \<le> maxContextLen cm"
      proof (cases "\<forall>s \<in> set added. sec_kind s \<noteq> Related")
        case True
        then have "size_of_kind Related added = 0" by (rule size_of_kind_absent)
        with a(4) False keep show ?thesis by simp
      next
        case False
        with a(5) keep show ?thesis by simp
      qed
      ultimately show ?thesis using a(6,7) keep by metis
    qed
  qed
qed

lemma assemble_Inr_content:
  "assemble w cm p = (Inr (ctx, tot), cm') \<Longrightarrow> \<exists>content. fst (GetFileContent w cm p) = Inr content"
  by (auto simp: assemble_def Let_def split: prod.splits sum.splits)

lemma assemble_shape:
  assumes a: "assemble w cm p = (Inr (ctx, tot), cm')"
    and c: "fst (GetFileContent w cm p) = Inr content"
  shows "\<exists>added. ctx = Section Primary p (primary_block (rel_or_empty w (rootPath cm) p) content) # added \<and>
       (\<forall>s \<in> set added. rendered w (rootPath cm) s) \<and>
       subseq (map sec_path added) (findRelatedFiles w p content) \<and>
       tot = int (length (primary_block (rel_or_empty w (rootPath cm) p) content))
                 + size_of_kind Related added \<and>
       ((\<forall>s \<in> set added. sec_kind s \<noteq> Related) \<or> tot \<le> maxContextLen cm)"
proof -
  obtain cm1 calls where g: "GetFileContent w cm p = (Inr content, cm1, calls)"
    using c by (cases "GetFileContent w cm p") auto
  note keep = GetFileContent_keeps_settings [OF g]
  let ?prim = "Section Primary p (primary_block (rel_or_empty w (rootPath cm) p) content)"
  from a g keep have l: "related_loop w (findRelatedFiles w p content) [?prim] (Len [?prim]) cm1
      = (ctx, tot, cm')"
    by (auto simp: assemble_def Let_def split: prod.splits)
  from related_loop_added [OF l] keep show ?thesis
    by (auto simp: Len_def String_def)
qed

lemma GetFileContent_budget:
  "fst (GetFileContent w (cm\<lparr>maxContextLen := B\<rparr>) p) = fst (GetFileContent w cm p)"
  by (auto simp: GetFileContent_def cache_fast_path_def split: option.splits sum.splits)

lemma assemble_total:
  assumes c: "fst (GetFileContent w cm p) = Inr content"
  shows "\<exists>ctx tot cm'. assemble w cm p = (Inr (ctx, tot), cm')"
proof -
  obtain cm1 calls where g: "GetFileContent w cm p = (Inr content, cm1, calls)"
    using c by (cases "GetFileContent w cm p") auto
  then show ?thesis
    by (auto simp: assemble_def Let_def split: prod.splits)
qed

text \<open>
  The loop writes exactly what the specification, as amended, asks for: the sections
  \<open>placed\<close> for the files \<open>fetched\<close>. With a cache that agrees with the world, the
  files fetched are the files that can be read, with their content on disk.
\<close>

lemma related_loop_exact:
  "related_loop w fs ctx t cm = (ctx', t', cm') \<Longrightarrow>
     ctx' = ctx @ placed w (rootPath cm) (maxContextLen cm) t (fetched w cm fs)"
proof (induction fs arbitrary: ctx t cm)
  case Nil
  then show ?case by simp
next
  case (Cons f fs)
  obtain res cm1 calls where g: "GetFileContent w cm f = (res, cm1, calls)"
    by (cases "GetFileContent w cm f") auto
  note keep = GetFileContent_keeps_settings [OF g]
  show ?case
  proof (cases res)
    case (Inl err)
    with Cons.prems g have "related_loop w fs ctx t cm1 = (ctx', t', cm')" by simp
    from Cons.IH [OF this] keep g Inl show ?thesis by simp
  next
    case (Inr c)
    define blk where "blk = related_block (rel_or_empty w (rootPath cm) f) c"
    show ?thesis
    proof (cases "t + int (length blk) > maxContextLen cm")
      case True
      with Cons.prems g Inr keep
      have "related_loop w fs
              (ctx @ [Section Notice f (truncation_notice (rel_or_empty w (rootPath cm) f))]) t cm1
              = (ctx', t', cm')"
        by (simp add: blk_def Let_def)
      from Cons.IH [OF this] keep g Inr True show ?thesis by (simp add: blk_def)
    next
      case False
      with Cons.prems g Inr keep
      have "related_loop w fs (ctx @ [Section Related f blk]) (t + int (length blk)) cm1
              = (ctx', t', cm')"
        by (simp add: blk_def Let_def)
      from Cons.IH [OF this] keep g Inr False show ?thesis by (simp add: blk_def)
    qed
  qed
qed

lemma length_placed: "length (placed w root budget t pairs) = length pairs"
  by (induction pairs arbitrary: t) (auto simp: Let_def)

lemma map_path_placed: "map sec_path (placed w root budget t pairs) = map fst pairs"
  by (induction pairs arbitrary: t) (auto simp: Let_def)

lemma placed_nth:
  "i < length pairs \<Longrightarrow>
     placed w root budget t pairs ! i =
       (if t + size_of_kind Related (take i (placed w root budget t pairs))
             + int (length (related_block (rel_or_empty w root (fst (pairs ! i))) (snd (pairs ! i))))
           > budget
        then Section Notice (fst (pairs ! i)) (truncation_notice (rel_or_empty w root (fst (pairs ! i))))
        else Section Related (fst (pairs ! i))
               (related_block (rel_or_empty w root (fst (pairs ! i))) (snd (pairs ! i))))"
proof (induction pairs arbitrary: t i)
  case Nil
  then show ?case by simp
next
  case (Cons x pairs)
  obtain f c where x: "x = (f, c)" by (cases x)
  show ?case
  proof (cases i)
    case 0
    then show ?thesis by (simp add: x size_of_kind_Nil)
  next
    case (Suc j)
    with Cons.prems have j: "j < length pairs" by simp
    show ?thesis
    proof (cases "t + int (length (related_block (rel_or_empty w root f) c)) > budget")
      case True
      with Cons.IH [OF j, of t] Suc show ?thesis
        by (simp add: x size_of_kind_Cons)
    next
      case False
      with Cons.IH [OF j, of "t + int (length (related_block (rel_or_empty w root f) c))"] Suc
      show ?thesis
        by (simp add: x size_of_kind_Cons add.assoc)
    qed
  qed
qed

lemma GetFileContent_Inr_if_readable:
  "os_ReadFile w f = Inr c \<Longrightarrow> \<exists>c'. fst (GetFileContent w cm f) = Inr c'"
  by (auto simp: GetFileContent_def cache_fast_path_def split: option.splits sum.splits)

lemma fetched_readable:
  "f \<in> set fs \<Longrightarrow> os_ReadFile w f = Inr c \<Longrightarrow> f \<in> fst ` set (fetched w cm fs)"
proof (induction fs arbitrary: cm)
  case Nil
  then show ?case by simp
next
  case (Cons g fs)
  obtain res cm1 calls where r: "GetFileContent w cm g = (res, cm1, calls)"
    by (cases "GetFileContent w cm g") auto
  show ?case
  proof (cases "f = g")
    case True
    with Cons.prems GetFileContent_Inr_if_readable [of w f c cm] r
    obtain c' where "res = Inr c'" by auto
    with r True show ?thesis by simp
  next
    case False
    with Cons.prems have "f \<in> set fs" by simp
    from Cons.IH [OF this Cons.prems(2), of cm1] r show ?thesis
      by (cases res) auto
  qed
qed

lemma coherent_GetFileContent:
  assumes "coherent w cm" and "GetFileContent w cm p = (res, cm', calls)"
  shows "res = os_ReadFile w p" and "coherent w cm'"
proof -
  show "res = os_ReadFile w p"
  proof (cases "entry_is_current w cm p")
    case True
    with assms(1) obtain c where c: "fileCache cm p = Some c" "os_ReadFile w p = Inr c"
      unfolding coherent_def by blast
    from True c assms(2) show ?thesis
      by (auto simp: GetFileContent_def cache_fast_path_def entry_is_current_def
          split: option.splits sum.splits if_splits)
  next
    case False
    from GetFileContent_miss_reads [OF False] assms(2) show ?thesis by simp
  qed
  show "coherent w cm'"
    unfolding coherent_def
  proof (intro allI impI)
    fix q
    assume cur: "entry_is_current w cm' q"
    show "\<exists>c. fileCache cm' q = Some c \<and> os_ReadFile w q = Inr c"
    proof (cases "cm' = cm")
      case True
      with cur assms(1) show ?thesis unfolding coherent_def by blast
    next
      case False
      with assms(2) obtain data info where
        d: "os_ReadFile w p = Inr data" "os_Stat w p = Inr info"
           "cm' = cm\<lparr>fileCache := (fileCache cm)(p \<mapsto> data),
                      fileMtimes := (fileMtimes cm)(p \<mapsto> fiModTime info)\<rparr>"
        by (auto simp: GetFileContent_def cache_fast_path_def
            split: option.splits sum.splits if_splits)
      show ?thesis
      proof (cases "q = p")
        case True
        with d show ?thesis by simp
      next
        case False
        with cur d have "entry_is_current w cm q" by (simp add: entry_is_current_def)
        with assms(1) False d show ?thesis unfolding coherent_def by auto
      qed
    qed
  qed
qed

lemma fetched_on_disk: "coherent w cm \<Longrightarrow> fetched w cm fs = on_disk w fs"
proof (induction fs arbitrary: cm)
  case Nil
  then show ?case by simp
next
  case (Cons f fs)
  obtain res cm1 calls where r: "GetFileContent w cm f = (res, cm1, calls)"
    by (cases "GetFileContent w cm f") auto
  from coherent_GetFileContent [OF Cons.prems r]
  have "res = os_ReadFile w f" and c1: "coherent w cm1" by simp_all
  with r Cons.IH [OF c1] show ?case by (simp split: sum.splits)
qed

lemma assemble_exact:
  assumes a: "assemble w cm p = (Inr (ctx, tot), cm')"
    and g: "GetFileContent w cm p = (Inr content, cm1, calls)"
  shows "ctx = Section Primary p (primary_block (rel_or_empty w (rootPath cm) p) content)
           # placed w (rootPath cm) (maxContextLen cm)
               (int (length (primary_block (rel_or_empty w (rootPath cm) p) content)))
               (fetched w cm1 (findRelatedFiles w p content))"
proof -
  note keep = GetFileContent_keeps_settings [OF g]
  let ?prim = "Section Primary p (primary_block (rel_or_empty w (rootPath cm) p) content)"
  from a g keep have l: "related_loop w (findRelatedFiles w p content) [?prim] (Len [?prim]) cm1
      = (ctx, tot, cm')"
    by (auto simp: assemble_def Let_def split: prod.splits)
  from related_loop_exact [OF l] keep show ?thesis
    by (simp add: Len_def String_def)
qed

text \<open>
  Claim C3. Whenever \<^verbatim>\<open>GetFileContent\<close> returns content for the primary file, the text
  that \<^verbatim>\<open>GetFileContext\<close> returns is, for every budget \<open>B\<close>, zero and negative ones too,
  the label \<^verbatim>\<open>File:\<close> with the relative path, an opening fence, that content byte for
  byte, a closing fence, and then whatever the related files add: the budget is compared
  only when a related file is about to be written. The content is the file's content on
  disk, unless a current cache entry answered, and then it is the content of that entry.
\<close>

theorem GetFileContext_primary_in_full:
  "fst (GetFileContent w cm p) = Inr content \<Longrightarrow>
     (\<exists>rest. fst (GetFileContext w (SetMaxContextLength cm B) p) =
        Inr (''File: '' @ (case filepath_Rel w (rootPath cm) p of Inl e \<Rightarrow> [] | Inr r \<Rightarrow> r)
               @ [CHR 0x0A, CHR 0x0A, CHR 0x60, CHR 0x60, CHR 0x60, CHR 0x0A]
               @ content
               @ [CHR 0x0A, CHR 0x60, CHR 0x60, CHR 0x60, CHR 0x0A, CHR 0x0A]
               @ rest)) \<and>
     (\<not> entry_is_current w cm p \<longrightarrow> os_ReadFile w p = Inr content) \<and>
     (entry_is_current w cm p \<longrightarrow> fileCache cm p = Some content)"
proof (intro conjI)
  assume c: "fst (GetFileContent w cm p) = Inr content"
  let ?cm = "SetMaxContextLength cm B"
  have cB: "fst (GetFileContent w ?cm p) = Inr content"
    using c by (simp add: SetMaxContextLength_def GetFileContent_budget)
  from assemble_total [OF cB] obtain ctx tot cm' where a: "assemble w ?cm p = (Inr (ctx, tot), cm')"
    by blast
  from assemble_shape [OF a cB] obtain added where
    "ctx = Section Primary p (primary_block (rel_or_empty w (rootPath ?cm) p) content) # added"
    by blast
  then have "String ctx = primary_block (rel_or_empty w (rootPath cm) p) content @ String added"
    by (simp add: String_def SetMaxContextLength_def)
  with a have "fst (GetFileContext w ?cm p) =
      Inr (primary_block (rel_or_empty w (rootPath cm) p) content @ String added)"
    by (simp add: GetFileContext_def)
  then show "\<exists>rest. fst (GetFileContext w ?cm p) =
        Inr (''File: '' @ (case filepath_Rel w (rootPath cm) p of Inl e \<Rightarrow> [] | Inr r \<Rightarrow> r)
               @ [CHR 0x0A, CHR 0x0A, CHR 0x60, CHR 0x60, CHR 0x60, CHR 0x0A]
               @ content
               @ [CHR 0x0A, CHR 0x60, CHR 0x60, CHR 0x60, CHR 0x0A, CHR 0x0A]
               @ rest)"
    by (intro exI [of _ "String added"])
       (simp add: primary_block_def rel_or_empty_def newline_def fence_def)
next
  assume c: "fst (GetFileContent w cm p) = Inr content"
  show "\<not> entry_is_current w cm p \<longrightarrow> os_ReadFile w p = Inr content"
    using c GetFileContent_miss_reads [of w cm p] by auto
next
  assume c: "fst (GetFileContent w cm p) = Inr content"
  then show "entry_is_current w cm p \<longrightarrow> fileCache cm p = Some content"
    by (auto simp: GetFileContent_def cache_fast_path_def entry_is_current_def
        split: option.splits sum.splits if_splits)
qed

theorem GetFileContext_primary_in_full_witness:
  "fst (GetFileContent big_primary_world big_primary_cm ''/p/notes.txt'')
     = Inr (replicate 200 (CHR ''x'')) \<and>
   \<not> entry_is_current big_primary_world big_primary_cm ''/p/notes.txt'' \<and>
   os_ReadFile big_primary_world ''/p/notes.txt'' = Inr (replicate 200 (CHR ''x'')) \<and>
   (\<exists>rest. fst (GetFileContext big_primary_world (SetMaxContextLength big_primary_cm 0)
                   ''/p/notes.txt'') =
        Inr (''File: notes.txt'' @ [CHR 0x0A, CHR 0x0A, CHR 0x60, CHR 0x60, CHR 0x60, CHR 0x0A]
               @ replicate 200 (CHR ''x'')
               @ [CHR 0x0A, CHR 0x60, CHR 0x60, CHR 0x60, CHR 0x0A, CHR 0x0A] @ rest))"
proof -
  have c: "fst (GetFileContent big_primary_world big_primary_cm ''/p/notes.txt'')
      = Inr (replicate 200 (CHR ''x''))"
    by (simp add: big_primary_world_def big_primary_cm_def ex_defs ctx_defs)
  have r: "filepath_Rel big_primary_world (rootPath big_primary_cm) ''/p/notes.txt''
      = Inr ''notes.txt''"
    by (simp add: big_primary_world_def big_primary_cm_def ex_defs str_defs ctx_defs)
  have n: "\<not> entry_is_current big_primary_world big_primary_cm ''/p/notes.txt''"
    by (simp add: entry_is_current_def big_primary_cm_def ex_defs Let_def)
  from GetFileContext_primary_in_full [OF c, of 0] c r n show ?thesis by simp
qed

text \<open>
  Claim C2, as stated, fails when the primary block alone is larger than the budget by more
  than a notice: with a budget of 64, a primary block of 227 bytes and one sibling that is
  refused with a notice of 77 bytes, the related blocks have size 0, which exceeds
  \<open>64 - 227\<close> by 163.
\<close>

theorem related_sections_over_budget_counterexample:
  "\<not> (size_of_kind Related (assembled_sections big_primary_world big_primary_cm ''/p/notes.txt'')
        \<le> maxContextLen big_primary_cm
            - size_of_kind Primary (assembled_sections big_primary_world big_primary_cm ''/p/notes.txt'')
            + largest_notice (assembled_sections big_primary_world big_primary_cm ''/p/notes.txt''))"
  by (simp add: big_primary_world_def big_primary_cm_def ex_defs str_defs ctx_defs)

text \<open>
  Claim C2, amended. For every budget and every primary file that can be read, the total
  size of the related blocks in the builder is at most the budget minus the size of the
  primary block when that difference is positive, and zero otherwise; so it exceeds the
  larger of zero and that difference by no notice at all.
\<close>

theorem related_sections_within_budget:
  "assemble w cm p = (Inr (ctx, tot), cm') \<Longrightarrow>
     size_of_kind Related ctx \<le> max 0 (maxContextLen cm - size_of_kind Primary ctx) \<and>
     size_of_kind Related ctx
       \<le> max 0 (maxContextLen cm - size_of_kind Primary ctx) + largest_notice ctx"
proof -
  assume a: "assemble w cm p = (Inr (ctx, tot), cm')"
  from assemble_Inr_content [OF a] obtain content where c: "fst (GetFileContent w cm p) = Inr content"
    by blast
  let ?pb = "primary_block (rel_or_empty w (rootPath cm) p) content"
  from assemble_shape [OF a c] obtain added where s:
    "ctx = Section Primary p ?pb # added"
    "\<forall>s \<in> set added. rendered w (rootPath cm) s"
    "tot = int (length ?pb) + size_of_kind Related added"
    "(\<forall>s \<in> set added. sec_kind s \<noteq> Related) \<or> tot \<le> maxContextLen cm"
    by blast
  from s(2) have "\<forall>s \<in> set added. sec_kind s \<noteq> Primary"
    by (auto dest: rendered_not_Primary)
  then have p0: "size_of_kind Primary added = 0" by (rule size_of_kind_absent)
  have prim: "size_of_kind Primary ctx = int (length ?pb)"
    using s(1) p0 by (simp add: size_of_kind_Cons)
  have rel: "size_of_kind Related ctx = size_of_kind Related added"
    using s(1) by (simp add: size_of_kind_Cons)
  have bound: "size_of_kind Related ctx \<le> max 0 (maxContextLen cm - size_of_kind Primary ctx)"
  proof (cases "\<forall>s \<in> set added. sec_kind s \<noteq> Related")
    case True
    then have "size_of_kind Related added = 0" by (rule size_of_kind_absent)
    with rel show ?thesis by simp
  next
    case False
    with s(4) have "tot \<le> maxContextLen cm" by simp
    with s(3) prim rel show ?thesis by simp
  qed
  with largest_notice_nonneg [of ctx] show ?thesis by simp
qed

theorem related_sections_within_budget_witness:
  "assemble two_siblings_world two_siblings_cm ''/p/a.txt'' =
      (Inr (assembled_sections two_siblings_world two_siblings_cm ''/p/a.txt'', 59),
       snd (assemble two_siblings_world two_siblings_cm ''/p/a.txt'')) \<and>
   size_of_kind Related (assembled_sections two_siblings_world two_siblings_cm ''/p/a.txt'') = 32 \<and>
   size_of_kind Primary (assembled_sections two_siblings_world two_siblings_cm ''/p/a.txt'') = 27 \<and>
   maxContextLen two_siblings_cm = 59 \<and>
   size_of_kind Related (assembled_sections two_siblings_world two_siblings_cm ''/p/a.txt'')
     \<le> max 0 (maxContextLen two_siblings_cm
                - size_of_kind Primary (assembled_sections two_siblings_world two_siblings_cm ''/p/a.txt''))"
proof -
  have a: "assemble two_siblings_world two_siblings_cm ''/p/a.txt'' =
      (Inr (assembled_sections two_siblings_world two_siblings_cm ''/p/a.txt'', 59),
       snd (assemble two_siblings_world two_siblings_cm ''/p/a.txt''))"
    by (simp add: two_siblings_world_def two_siblings_cm_def ex_defs str_defs ctx_defs)
  have v: "size_of_kind Related (assembled_sections two_siblings_world two_siblings_cm ''/p/a.txt'') = 32 \<and>
     size_of_kind Primary (assembled_sections two_siblings_world two_siblings_cm ''/p/a.txt'') = 27 \<and>
     maxContextLen two_siblings_cm = 59"
    by (simp add: two_siblings_world_def two_siblings_cm_def ex_defs str_defs ctx_defs)
  from related_sections_within_budget [OF a] a v show ?thesis by simp
qed


lemma primary_block_text:
  "primary_block r c =
     ''File: '' @ r @ [CHR 0x0A, CHR 0x0A, CHR 0x60, CHR 0x60, CHR 0x60, CHR 0x0A] @ c
       @ [CHR 0x0A, CHR 0x60, CHR 0x60, CHR 0x60, CHR 0x0A, CHR 0x0A]"
  by (simp add: primary_block_def newline_def fence_def)

lemma related_block_text:
  "related_block r c =
     ''Related file: '' @ r @ [CHR 0x0A, CHR 0x0A, CHR 0x60, CHR 0x60, CHR 0x60, CHR 0x0A] @ c
       @ [CHR 0x0A, CHR 0x60, CHR 0x60, CHR 0x60, CHR 0x0A, CHR 0x0A]"
  by (simp add: related_block_def newline_def fence_def)

lemma truncation_notice_text:
  "truncation_notice r =
     ''(Additional related file '' @ r @ '' not included due to context length limits)''
       @ [CHR 0x0A]"
  by (simp add: truncation_notice_def newline_def)

text \<open>
  Claim C6, as stated, fails: the notice for a related file is written where the loop
  reaches that file, so it comes before the block of a later, smaller related file. With a
  large and a small sibling and a budget that admits only the small one, the output is the
  primary block, the notice for the large file, the block of the small file.
\<close>

theorem notice_before_related_counterexample:
  "map sec_kind (assembled_sections two_siblings_world two_siblings_cm ''/p/a.txt'')
     = [Primary, Notice, Related] \<and>
   map sec_path (assembled_sections two_siblings_world two_siblings_cm ''/p/a.txt'')
     = [''/p/a.txt'', ''/p/a.md'', ''/p/a.rst''] \<and>
   fst (GetFileContext two_siblings_world two_siblings_cm ''/p/a.txt'') =
     Inr (primary_block ''a.txt'' ''main'' @ truncation_notice ''a.md''
            @ related_block ''a.rst'' ''s'')"
  by (simp add: two_siblings_world_def two_siblings_cm_def ex_defs str_defs ctx_defs)

text \<open>
  Claim C6, amended. The output is the concatenation of the sections of the builder: the
  primary block first, then exactly one section for each related file whose content was
  fetched, in the order in which \<^verbatim>\<open>findRelatedFiles\<close> returned them: at position \<open>i\<close>
  stands either the block of the \<open>i\<close>-th fetched file, holding the content that was
  fetched, or the notice that names that file, so that blocks and notices are interleaved
  in the resolver's order. These sections are the ones \<open>placed\<close> computes. Every related
  file that can be read has a section; and when the cache agrees with the world (as that of
  a new struct does), the fetched files are the related files that can be read, each with
  its content on disk.
\<close>

theorem sections_in_resolver_order:
  "assemble w cm p = (Inr (ctx, tot), cm') \<Longrightarrow>
   GetFileContent w cm p = (Inr content, cm1, calls) \<Longrightarrow>
       (fst (GetFileContext w cm p) = Inr (concat (map sec_text ctx)) \<and>
        ctx = Section Primary p
                (''File: '' @ rel_or_empty w (rootPath cm) p
                   @ [CHR 0x0A, CHR 0x0A, CHR 0x60, CHR 0x60, CHR 0x60, CHR 0x0A]
                   @ content
                   @ [CHR 0x0A, CHR 0x60, CHR 0x60, CHR 0x60, CHR 0x0A, CHR 0x0A]) # tl ctx \<and>
        tl ctx = placed w (rootPath cm) (maxContextLen cm)
                   (int (length (primary_block (rel_or_empty w (rootPath cm) p) content)))
                   (fetched w cm1 (findRelatedFiles w p content)) \<and>
        map sec_path (tl ctx) = map fst (fetched w cm1 (findRelatedFiles w p content)) \<and>
        (\<forall>i < length (tl ctx).
           tl ctx ! i =
             Section Related (fst (fetched w cm1 (findRelatedFiles w p content) ! i))
               (''Related file: '' @ rel_or_empty w (rootPath cm) (fst (fetched w cm1 (findRelatedFiles w p content) ! i))
                  @ [CHR 0x0A, CHR 0x0A, CHR 0x60, CHR 0x60, CHR 0x60, CHR 0x0A]
                  @ snd (fetched w cm1 (findRelatedFiles w p content) ! i)
                  @ [CHR 0x0A, CHR 0x60, CHR 0x60, CHR 0x60, CHR 0x0A, CHR 0x0A]) \<or>
           tl ctx ! i =
             Section Notice (fst (fetched w cm1 (findRelatedFiles w p content) ! i))
               (''(Additional related file '' @ rel_or_empty w (rootPath cm) (fst (fetched w cm1 (findRelatedFiles w p content) ! i))
                  @ '' not included due to context length limits)'' @ [CHR 0x0A])) \<and>
        (\<forall>f \<in> set (findRelatedFiles w p content).
           (\<exists>c. os_ReadFile w f = Inr c) \<longrightarrow> f \<in> set (map sec_path (tl ctx))) \<and>
        (coherent w cm \<longrightarrow>
           fetched w cm1 (findRelatedFiles w p content) = on_disk w (findRelatedFiles w p content)))"
proof -
  assume a: "assemble w cm p = (Inr (ctx, tot), cm')"
    and g: "GetFileContent w cm p = (Inr content, cm1, calls)"
  let ?fs = "findRelatedFiles w p content"
  let ?pairs = "fetched w cm1 ?fs"
  let ?pb = "primary_block (rel_or_empty w (rootPath cm) p) content"
  let ?pl = "placed w (rootPath cm) (maxContextLen cm) (int (length ?pb)) ?pairs"
  from assemble_exact [OF a g] have x: "ctx = Section Primary p ?pb # ?pl" .
  then have t: "tl ctx = ?pl" by simp
  have out: "fst (GetFileContext w cm p) = Inr (String ctx)"
    using a by (simp add: GetFileContext_def)
  have paths: "map sec_path (tl ctx) = map fst ?pairs"
    by (simp add: t map_path_placed)
  have len: "length (tl ctx) = length ?pairs"
    by (simp add: t length_placed)
  have each: "\<forall>i < length (tl ctx).
       tl ctx ! i = Section Related (fst (?pairs ! i))
           (related_block (rel_or_empty w (rootPath cm) (fst (?pairs ! i))) (snd (?pairs ! i))) \<or>
       tl ctx ! i = Section Notice (fst (?pairs ! i))
           (truncation_notice (rel_or_empty w (rootPath cm) (fst (?pairs ! i))))"
  proof (intro allI impI)
    fix i
    assume "i < length (tl ctx)"
    with len have i: "i < length ?pairs" by simp
    from placed_nth [OF i, of w "rootPath cm" "maxContextLen cm" "int (length ?pb)"]
    show "tl ctx ! i = Section Related (fst (?pairs ! i))
           (related_block (rel_or_empty w (rootPath cm) (fst (?pairs ! i))) (snd (?pairs ! i))) \<or>
       tl ctx ! i = Section Notice (fst (?pairs ! i))
           (truncation_notice (rel_or_empty w (rootPath cm) (fst (?pairs ! i))))"
      unfolding t by (simp split: if_splits)
  qed
  have readable: "\<forall>f \<in> set ?fs. (\<exists>c. os_ReadFile w f = Inr c) \<longrightarrow> f \<in> set (map sec_path (tl ctx))"
  proof (intro ballI impI)
    fix f
    assume "f \<in> set ?fs" and "\<exists>c. os_ReadFile w f = Inr c"
    then obtain c where "os_ReadFile w f = Inr c" by blast
    from fetched_readable [OF \<open>f \<in> set ?fs\<close> this, of cm1]
    show "f \<in> set (map sec_path (tl ctx))" by (simp add: paths)
  qed
  have disk: "coherent w cm \<longrightarrow> ?pairs = on_disk w ?fs"
  proof
    assume "coherent w cm"
    from coherent_GetFileContent(2) [OF this g] have "coherent w cm1" .
    then show "?pairs = on_disk w ?fs" by (rule fetched_on_disk)
  qed
  have out': "fst (GetFileContext w cm p) = Inr (concat (map sec_text ctx))"
    using out by (simp add: String_def)
  have x': "ctx = Section Primary p
                (''File: '' @ rel_or_empty w (rootPath cm) p
                   @ [CHR 0x0A, CHR 0x0A, CHR 0x60, CHR 0x60, CHR 0x60, CHR 0x0A]
                   @ content
                   @ [CHR 0x0A, CHR 0x60, CHR 0x60, CHR 0x60, CHR 0x0A, CHR 0x0A]) # tl ctx"
    using x by (simp add: primary_block_text)
  have each': "\<forall>i < length (tl ctx).
           tl ctx ! i =
             Section Related (fst (?pairs ! i))
               (''Related file: '' @ rel_or_empty w (rootPath cm) (fst (?pairs ! i))
                  @ [CHR 0x0A, CHR 0x0A, CHR 0x60, CHR 0x60, CHR 0x60, CHR 0x0A]
                  @ snd (?pairs ! i)
                  @ [CHR 0x0A, CHR 0x60, CHR 0x60, CHR 0x60, CHR 0x0A, CHR 0x0A]) \<or>
           tl ctx ! i =
             Section Notice (fst (?pairs ! i))
               (''(Additional related file '' @ rel_or_empty w (rootPath cm) (fst (?pairs ! i))
                  @ '' not included due to context length limits)'' @ [CHR 0x0A])"
    by (rule each [unfolded related_block_text truncation_notice_text])
  show ?thesis
    by (intro conjI out' x' t paths each' readable disk)
qed

theorem sections_in_resolver_order_witness:
  "assemble two_siblings_world two_siblings_cm ''/p/a.txt'' =
      (Inr (assembled_sections two_siblings_world two_siblings_cm ''/p/a.txt'', 59),
       snd (assemble two_siblings_world two_siblings_cm ''/p/a.txt'')) \<and>
   GetFileContent two_siblings_world two_siblings_cm ''/p/a.txt'' =
      (Inr ''main'', fst (snd (GetFileContent two_siblings_world two_siblings_cm ''/p/a.txt'')),
       [CallReadFile ''/p/a.txt'', CallStat ''/p/a.txt'']) \<and>
   coherent two_siblings_world two_siblings_cm \<and>
   findRelatedFiles two_siblings_world ''/p/a.txt'' ''main'' = [''/p/a.md'', ''/p/a.rst''] \<and>
   on_disk two_siblings_world [''/p/a.md'', ''/p/a.rst'']
      = [(''/p/a.md'', replicate 100 (CHR ''m'')), (''/p/a.rst'', ''s'')] \<and>
   fetched two_siblings_world
      (fst (snd (GetFileContent two_siblings_world two_siblings_cm ''/p/a.txt'')))
      [''/p/a.md'', ''/p/a.rst'']
      = [(''/p/a.md'', replicate 100 (CHR ''m'')), (''/p/a.rst'', ''s'')] \<and>
   fst (GetFileContext two_siblings_world two_siblings_cm ''/p/a.txt'') =
      Inr (String (assembled_sections two_siblings_world two_siblings_cm ''/p/a.txt'')) \<and>
   assembled_sections two_siblings_world two_siblings_cm ''/p/a.txt'' =
      [Section Primary ''/p/a.txt'' (primary_block ''a.txt'' ''main''),
       Section Notice ''/p/a.md'' (truncation_notice ''a.md''),
       Section Related ''/p/a.rst'' (related_block ''a.rst'' ''s'')] \<and>
   map sec_path (tl (assembled_sections two_siblings_world two_siblings_cm ''/p/a.txt''))
      = [''/p/a.md'', ''/p/a.rst'']"
proof -
  let ?w = two_siblings_world
  let ?cm = two_siblings_cm
  let ?ctx = "assembled_sections ?w ?cm ''/p/a.txt''"
  let ?cm1 = "fst (snd (GetFileContent ?w ?cm ''/p/a.txt''))"
  have a: "assemble ?w ?cm ''/p/a.txt'' = (Inr (?ctx, 59), snd (assemble ?w ?cm ''/p/a.txt''))"
    by (simp add: two_siblings_world_def two_siblings_cm_def ex_defs str_defs ctx_defs)
  have g: "GetFileContent ?w ?cm ''/p/a.txt'' =
      (Inr ''main'', ?cm1, [CallReadFile ''/p/a.txt'', CallStat ''/p/a.txt''])"
    by (simp add: two_siblings_world_def two_siblings_cm_def ex_defs ctx_defs)
  have co: "coherent ?w ?cm"
    by (simp add: coherent_def entry_is_current_def two_siblings_cm_def ex_defs Let_def)
  have f: "findRelatedFiles ?w ''/p/a.txt'' ''main'' = [''/p/a.md'', ''/p/a.rst'']"
    by (simp add: two_siblings_world_def ex_defs str_defs ctx_defs)
  have d: "on_disk ?w [''/p/a.md'', ''/p/a.rst'']
      = [(''/p/a.md'', replicate 100 (CHR ''m'')), (''/p/a.rst'', ''s'')]"
    by (simp add: two_siblings_world_def ex_defs)
  have s: "?ctx =
      [Section Primary ''/p/a.txt'' (primary_block ''a.txt'' ''main''),
       Section Notice ''/p/a.md'' (truncation_notice ''a.md''),
       Section Related ''/p/a.rst'' (related_block ''a.rst'' ''s'')]"
    by (simp add: two_siblings_world_def two_siblings_cm_def ex_defs str_defs ctx_defs)
  note th = sections_in_resolver_order [OF a g]
  have out: "fst (GetFileContext ?w ?cm ''/p/a.txt'') = Inr (String ?ctx)"
    unfolding String_def by (rule th [THEN conjunct1])
  have fe: "fetched ?w ?cm1 [''/p/a.md'', ''/p/a.rst''] = on_disk ?w [''/p/a.md'', ''/p/a.rst'']"
    using th [THEN conjunct2, THEN conjunct2, THEN conjunct2, THEN conjunct2, THEN conjunct2,
      THEN conjunct2] co by (simp add: f)
  have paths: "map sec_path (tl ?ctx) = map fst (fetched ?w ?cm1 [''/p/a.md'', ''/p/a.rst''])"
    using th [THEN conjunct2, THEN conjunct2, THEN conjunct2, THEN conjunct1] by (simp add: f)
  have paths': "map sec_path (tl ?ctx) = [''/p/a.md'', ''/p/a.rst'']"
    unfolding paths fe d by simp
  have fe': "fetched ?w ?cm1 [''/p/a.md'', ''/p/a.rst'']
      = [(''/p/a.md'', replicate 100 (CHR ''m'')), (''/p/a.rst'', ''s'')]"
    unfolding fe by (rule d)
  show ?thesis
    by (intro conjI a g co f d fe' out s paths')
qed

lemma two_siblings_sizes:
  "Len (assembled_sections two_siblings_world two_siblings_cm ''/p/a.txt'') = 132 \<and>
   running_total two_siblings_world two_siblings_cm ''/p/a.txt'' = 59 \<and>
   size_of_kind Notice (assembled_sections two_siblings_world two_siblings_cm ''/p/a.txt'') = 73 \<and>
   maxContextLen two_siblings_cm = 59 \<and>
   map sec_kind (assembled_sections two_siblings_world two_siblings_cm ''/p/a.txt'')
     = [Primary, Notice, Related]"
  by (simp add: two_siblings_world_def two_siblings_cm_def ex_defs str_defs ctx_defs)

text \<open>
  Claim C10. The running total that is compared with the budget is the size of the primary
  block and of the related blocks; the notices are written without being added to it, so
  the length of the whole output is the running total plus the length of all notices.
  Every fetched file has its section: at position \<open>i\<close> the notice is written exactly
  when the primary block, the related blocks before that position and the block of the file
  together exceed the budget, and the block otherwise. Neither the length of the notice nor
  the notices written before enter that test, so no notice is ever held back. Once a related
  block is written the running total is within the budget, and still the whole output can be
  longer than the budget by the length of all its notices: in the example the running total
  is 59, the budget is 59 and the output has 132 bytes, 73 of them the notice, which alone
  is longer than the budget.
\<close>

theorem notices_outside_running_total:
  "(assemble w cm p = (Inr (ctx, tot), cm') \<and> GetFileContent w cm p = (Inr content, cm1, calls) \<longrightarrow>
      tot = size_of_kind Primary ctx + size_of_kind Related ctx \<and>
      Len ctx = tot + size_of_kind Notice ctx \<and>
      ((\<exists>s \<in> set ctx. sec_kind s = Related) \<longrightarrow> tot \<le> maxContextLen cm) \<and>
      length (tl ctx) = length (fetched w cm1 (findRelatedFiles w p content)) \<and>
      (\<forall>i < length (tl ctx).
         tl ctx ! i =
           (if size_of_kind Primary ctx + size_of_kind Related (take i (tl ctx))
                 + int (length
                     (''Related file: '' @ rel_or_empty w (rootPath cm) (fst (fetched w cm1 (findRelatedFiles w p content) ! i))
                        @ [CHR 0x0A, CHR 0x0A, CHR 0x60, CHR 0x60, CHR 0x60, CHR 0x0A]
                        @ snd (fetched w cm1 (findRelatedFiles w p content) ! i)
                        @ [CHR 0x0A, CHR 0x60, CHR 0x60, CHR 0x60, CHR 0x0A, CHR 0x0A]))
               > maxContextLen cm
            then Section Notice (fst (fetched w cm1 (findRelatedFiles w p content) ! i))
                   (''(Additional related file '' @ rel_or_empty w (rootPath cm) (fst (fetched w cm1 (findRelatedFiles w p content) ! i))
                      @ '' not included due to context length limits)'' @ [CHR 0x0A])
            else Section Related (fst (fetched w cm1 (findRelatedFiles w p content) ! i))
                   (''Related file: '' @ rel_or_empty w (rootPath cm) (fst (fetched w cm1 (findRelatedFiles w p content) ! i))
                      @ [CHR 0x0A, CHR 0x0A, CHR 0x60, CHR 0x60, CHR 0x60, CHR 0x0A]
                      @ snd (fetched w cm1 (findRelatedFiles w p content) ! i)
                      @ [CHR 0x0A, CHR 0x60, CHR 0x60, CHR 0x60, CHR 0x0A, CHR 0x0A]))) \<and>
      fst (GetFileContext w cm p) = Inr (concat (map sec_text ctx)) \<and>
      int (length (concat (map sec_text ctx))) = tot + size_of_kind Notice ctx) \<and>
   (\<exists>w0 cm0 p0.
      (\<exists>s \<in> set (assembled_sections w0 cm0 p0). sec_kind s = Related) \<and>
      running_total w0 cm0 p0 \<le> maxContextLen cm0 \<and>
      0 < size_of_kind Notice (assembled_sections w0 cm0 p0) \<and>
      Len (assembled_sections w0 cm0 p0)
        = maxContextLen cm0 + size_of_kind Notice (assembled_sections w0 cm0 p0))"
proof (intro conjI impI)
  assume h: "assemble w cm p = (Inr (ctx, tot), cm') \<and>
    GetFileContent w cm p = (Inr content, cm1, calls)"
  then have a: "assemble w cm p = (Inr (ctx, tot), cm')"
    and g: "GetFileContent w cm p = (Inr content, cm1, calls)" by simp_all
  from g have c: "fst (GetFileContent w cm p) = Inr content" by simp
  let ?pb = "primary_block (rel_or_empty w (rootPath cm) p) content"
  let ?pairs = "fetched w cm1 (findRelatedFiles w p content)"
  let ?pl = "placed w (rootPath cm) (maxContextLen cm) (int (length ?pb)) ?pairs"
  from assemble_shape [OF a c] obtain added where s:
    "ctx = Section Primary p ?pb # added"
    "\<forall>s \<in> set added. rendered w (rootPath cm) s"
    "tot = int (length ?pb) + size_of_kind Related added"
    "(\<forall>s \<in> set added. sec_kind s \<noteq> Related) \<or> tot \<le> maxContextLen cm"
    by blast
  from s(2) have "\<forall>s \<in> set added. sec_kind s \<noteq> Primary"
    by (auto dest: rendered_not_Primary)
  then have p0: "size_of_kind Primary added = 0" by (rule size_of_kind_absent)
  with s(1,3) show t: "tot = size_of_kind Primary ctx + size_of_kind Related ctx"
    by (simp add: size_of_kind_Cons)
  with Len_by_kind [of ctx] show l: "Len ctx = tot + size_of_kind Notice ctx" by simp
  then show "int (length (concat (map sec_text ctx))) = tot + size_of_kind Notice ctx"
    by (simp add: Len_def String_def)
  show "fst (GetFileContext w cm p) = Inr (concat (map sec_text ctx))"
    using a by (simp add: GetFileContext_def String_def)
  from assemble_exact [OF a g] have x: "ctx = Section Primary p ?pb # ?pl" .
  then have tl: "tl ctx = ?pl" by simp
  show len: "length (tl ctx) = length ?pairs" by (simp add: tl length_placed)
  have prim: "size_of_kind Primary ctx = int (length ?pb)"
    using s(1) p0 by (simp add: size_of_kind_Cons)
  show "\<forall>i < length (tl ctx).
         tl ctx ! i =
           (if size_of_kind Primary ctx + size_of_kind Related (take i (tl ctx))
                 + int (length
                     (''Related file: '' @ rel_or_empty w (rootPath cm) (fst (?pairs ! i))
                        @ [CHR 0x0A, CHR 0x0A, CHR 0x60, CHR 0x60, CHR 0x60, CHR 0x0A]
                        @ snd (?pairs ! i)
                        @ [CHR 0x0A, CHR 0x60, CHR 0x60, CHR 0x60, CHR 0x0A, CHR 0x0A]))
               > maxContextLen cm
            then Section Notice (fst (?pairs ! i))
                   (''(Additional related file '' @ rel_or_empty w (rootPath cm) (fst (?pairs ! i))
                      @ '' not included due to context length limits)'' @ [CHR 0x0A])
            else Section Related (fst (?pairs ! i))
                   (''Related file: '' @ rel_or_empty w (rootPath cm) (fst (?pairs ! i))
                      @ [CHR 0x0A, CHR 0x0A, CHR 0x60, CHR 0x60, CHR 0x60, CHR 0x0A]
                      @ snd (?pairs ! i)
                      @ [CHR 0x0A, CHR 0x60, CHR 0x60, CHR 0x60, CHR 0x0A, CHR 0x0A]))"
  proof (intro allI impI)
    fix i
    assume "i < length (tl ctx)"
    with len have i: "i < length ?pairs" by simp
    from placed_nth [OF i, of w "rootPath cm" "maxContextLen cm" "int (length ?pb)"]
    show "tl ctx ! i =
           (if size_of_kind Primary ctx + size_of_kind Related (take i (tl ctx))
                 + int (length
                     (''Related file: '' @ rel_or_empty w (rootPath cm) (fst (?pairs ! i))
                        @ [CHR 0x0A, CHR 0x0A, CHR 0x60, CHR 0x60, CHR 0x60, CHR 0x0A]
                        @ snd (?pairs ! i)
                        @ [CHR 0x0A, CHR 0x60, CHR 0x60, CHR 0x60, CHR 0x0A, CHR 0x0A]))
               > maxContextLen cm
            then Section Notice (fst (?pairs ! i))
                   (''(Additional related file '' @ rel_or_empty w (rootPath cm) (fst (?pairs ! i))
                      @ '' not included due to context length limits)'' @ [CHR 0x0A])
            else Section Related (fst (?pairs ! i))
                   (''Related file: '' @ rel_or_empty w (rootPath cm) (fst (?pairs ! i))
                      @ [CHR 0x0A, CHR 0x0A, CHR 0x60, CHR 0x60, CHR 0x60, CHR 0x0A]
                      @ snd (?pairs ! i)
                      @ [CHR 0x0A, CHR 0x60, CHR 0x60, CHR 0x60, CHR 0x0A, CHR 0x0A]))"
      unfolding tl prim by (simp add: related_block_text truncation_notice_text)
  qed
  assume "\<exists>s \<in> set ctx. sec_kind s = Related"
  with s(1) have "\<not> (\<forall>s \<in> set added. sec_kind s \<noteq> Related)" by auto
  with s(4) show "tot \<le> maxContextLen cm" by simp
next
  let ?b = "assembled_sections two_siblings_world two_siblings_cm ''/p/a.txt''"
  have "Related \<in> sec_kind ` set ?b" using two_siblings_sizes by (simp flip: set_map)
  then obtain s where "s \<in> set ?b" and "Related = sec_kind s" by blast
  then have "\<exists>s \<in> set ?b. sec_kind s = Related" by (intro bexI [of _ s]) simp_all
  with two_siblings_sizes show "\<exists>w0 cm0 p0.
      (\<exists>s \<in> set (assembled_sections w0 cm0 p0). sec_kind s = Related) \<and>
      running_total w0 cm0 p0 \<le> maxContextLen cm0 \<and>
      0 < size_of_kind Notice (assembled_sections w0 cm0 p0) \<and>
      Len (assembled_sections w0 cm0 p0)
        = maxContextLen cm0 + size_of_kind Notice (assembled_sections w0 cm0 p0)"
    by (intro exI [of _ two_siblings_world] exI [of _ two_siblings_cm] exI [of _ "''/p/a.txt''"]) simp
qed

theorem notices_outside_running_total_witness:
  "assemble two_siblings_world two_siblings_cm ''/p/a.txt'' =
      (Inr (assembled_sections two_siblings_world two_siblings_cm ''/p/a.txt'', 59),
       snd (assemble two_siblings_world two_siblings_cm ''/p/a.txt'')) \<and>
   GetFileContent two_siblings_world two_siblings_cm ''/p/a.txt'' =
      (Inr ''main'', fst (snd (GetFileContent two_siblings_world two_siblings_cm ''/p/a.txt'')),
       [CallReadFile ''/p/a.txt'', CallStat ''/p/a.txt'']) \<and>
   map sec_kind (assembled_sections two_siblings_world two_siblings_cm ''/p/a.txt'')
     = [Primary, Notice, Related] \<and>
   maxContextLen two_siblings_cm = 59 \<and>
   size_of_kind Primary (assembled_sections two_siblings_world two_siblings_cm ''/p/a.txt'')
     + size_of_kind Related (assembled_sections two_siblings_world two_siblings_cm ''/p/a.txt'')
     = 59 \<and>
   size_of_kind Notice (assembled_sections two_siblings_world two_siblings_cm ''/p/a.txt'') = 73 \<and>
   Len (assembled_sections two_siblings_world two_siblings_cm ''/p/a.txt'') = 59 + 73 \<and>
   length (tl (assembled_sections two_siblings_world two_siblings_cm ''/p/a.txt'')) = 2 \<and>
   tl (assembled_sections two_siblings_world two_siblings_cm ''/p/a.txt'') ! 0
     = Section Notice ''/p/a.md'' (truncation_notice ''a.md'') \<and>
   int (length (truncation_notice ''a.md'')) = 73"
proof -
  let ?w = two_siblings_world
  let ?cm = two_siblings_cm
  let ?ctx = "assembled_sections ?w ?cm ''/p/a.txt''"
  let ?cm1 = "fst (snd (GetFileContent ?w ?cm ''/p/a.txt''))"
  have a: "assemble ?w ?cm ''/p/a.txt'' = (Inr (?ctx, 59), snd (assemble ?w ?cm ''/p/a.txt''))"
    by (simp add: two_siblings_world_def two_siblings_cm_def ex_defs str_defs ctx_defs)
  have g: "GetFileContent ?w ?cm ''/p/a.txt'' =
      (Inr ''main'', ?cm1, [CallReadFile ''/p/a.txt'', CallStat ''/p/a.txt''])"
    by (simp add: two_siblings_world_def two_siblings_cm_def ex_defs ctx_defs)
  have s: "tl ?ctx =
      [Section Notice ''/p/a.md'' (truncation_notice ''a.md''),
       Section Related ''/p/a.rst'' (related_block ''a.rst'' ''s'')]"
    by (simp add: two_siblings_world_def two_siblings_cm_def ex_defs str_defs ctx_defs)
  have n: "int (length (truncation_notice ''a.md'')) = 73"
    by (simp add: truncation_notice_def newline_def)
  note th = notices_outside_running_total
    [where w = ?w and cm = ?cm and p = "''/p/a.txt''" and ctx = ?ctx and tot = 59
       and cm' = "snd (assemble ?w ?cm ''/p/a.txt'')" and content = "''main''" and ?cm1.0 = ?cm1
       and calls = "[CallReadFile ''/p/a.txt'', CallStat ''/p/a.txt'']",
     THEN conjunct1, rule_format, OF conjI, OF a g]
  have t: "(59::int) = size_of_kind Primary ?ctx + size_of_kind Related ?ctx"
    by (rule th [THEN conjunct1])
  have l: "Len ?ctx = 59 + size_of_kind Notice ?ctx"
    by (rule th [THEN conjunct2, THEN conjunct1])
  have k: "map sec_kind ?ctx = [Primary, Notice, Related]"
    and m: "maxContextLen ?cm = 59" and nn: "size_of_kind Notice ?ctx = 73"
    using two_siblings_sizes by simp_all
  have l': "Len ?ctx = 59 + 73" using l nn by simp
  have t': "size_of_kind Primary ?ctx + size_of_kind Related ?ctx = 59" using t by simp
  have len: "length (tl ?ctx) = 2" unfolding s by simp
  have z: "tl ?ctx ! 0 = Section Notice ''/p/a.md'' (truncation_notice ''a.md'')"
    unfolding s by simp
  show ?thesis
    by (intro conjI a g k m t' nn l' len z n)
qed

section \<open>The project walker\<close>

lemma skips_onlyD:
  assumes "skips_only fn" and "info \<noteq> None \<or> err \<noteq> None"
  shows "fst (fn path info err s) = None \<or> fst (fn path info err s) = Some SkipDir"
  by (rule assms(1) [unfolded skips_only_def, rule_format]) (rule assms(2))

lemma walk_entries_skips_only:
  assumes f: "skips_only fn"
    and kids: "\<And>k path info s. k \<in> set ks \<Longrightarrow>
       fst (walk w fn path info k s) = None \<or> fst (walk w fn path info k s) = Some SkipDir"
  shows "fst (walk_entries w fn path ks s) = None \<or>
         fst (walk_entries w fn path ks s) = Some SkipDir"
  using kids
proof (induction ks arbitrary: s)
  case Nil
  then show ?case by simp
next
  case (Cons k ks)
  have rest: "\<And>s'. fst (walk_entries w fn path ks s') = None \<or>
      fst (walk_entries w fn path ks s') = Some SkipDir"
  proof -
    fix s'
    show "fst (walk_entries w fn path ks s') = None \<or>
      fst (walk_entries w fn path ks s') = Some SkipDir"
    proof (rule Cons.IH)
      fix k' path' info' s''
      assume "k' \<in> set ks"
      then have "k' \<in> set (k # ks)" by simp
      then show "fst (walk w fn path' info' k' s'') = None \<or>
        fst (walk w fn path' info' k' s'') = Some SkipDir"
        by (rule Cons.prems)
    qed
  qed
  show ?case
  proof (cases "node_lstat k")
    case (Inl err)
    obtain e1 s1 where r: "fn (filepath_Join w path (node_name k)) None (Some err) s = (e1, s1)"
      by (cases "fn (filepath_Join w path (node_name k)) None (Some err) s") auto
    from skips_onlyD [OF f, of None "Some err" "filepath_Join w path (node_name k)" s] r
    have "e1 = None \<or> e1 = Some SkipDir" by simp
    then show ?thesis
    proof
      assume "e1 = None"
      with Inl r rest [of s1] show ?thesis by simp
    next
      assume "e1 = Some SkipDir"
      with Inl r rest [of s1] show ?thesis by simp
    qed
  next
    case (Inr fileInfo)
    obtain e1 s1
      where r: "walk w fn (filepath_Join w path (node_name k)) fileInfo k s = (e1, s1)"
      by (cases "walk w fn (filepath_Join w path (node_name k)) fileInfo k s") auto
    from Cons.prems [of k "filepath_Join w path (node_name k)" fileInfo s] r
    have "e1 = None \<or> e1 = Some SkipDir" by simp
    then show ?thesis
    proof
      assume "e1 = None"
      with Inr r rest [of s1] show ?thesis by simp
    next
      assume "e1 = Some SkipDir"
      with Inr r rest [of s1] show ?thesis by (cases "fiIsDir fileInfo") simp_all
    qed
  qed
qed

lemma walk_skips_only:
  assumes f: "skips_only fn"
  shows "fst (walk w fn path info node s) = None \<or>
         fst (walk w fn path info node s) = Some SkipDir"
proof (induction node arbitrary: path info s)
  case (FsNode nm ls rderr kids)
  show ?case
  proof (cases "fiIsDir info")
    case False
    with skips_onlyD [OF f, of "Some info" None path s] show ?thesis by simp
  next
    case True
    obtain err1 s1 where r: "fn path (Some info) rderr s = (err1, s1)"
      by (cases "fn path (Some info) rderr s") auto
    from skips_onlyD [OF f, of "Some info" rderr path s] r
    have c: "err1 = None \<or> err1 = Some SkipDir" by simp
    have k: "fst (walk_entries w fn path kids s1) = None \<or>
        fst (walk_entries w fn path kids s1) = Some SkipDir"
      by (rule walk_entries_skips_only [OF f]) (rule FsNode.IH)
    show ?thesis
    proof (cases "rderr \<noteq> None \<or> err1 \<noteq> None")
      case True
      with \<open>fiIsDir info\<close> r c show ?thesis by (simp del: not_None_eq)
    next
      case False
      with \<open>fiIsDir info\<close> r k show ?thesis by (simp del: not_None_eq)
    qed
  qed
qed

lemma relevant_fn_skips_only: "skips_only (relevant_fn w cm query maxFiles)"
  by (auto simp: skips_only_def relevant_fn_def Let_def split: option.splits)

lemma GetRelevantFiles_no_error: "snd (GetRelevantFiles w cm query maxFiles) = None"
proof -
  let ?fn = "relevant_fn w cm query maxFiles"
  let ?root = "rootPath cm"
  show ?thesis
  proof (cases "node_lstat (lstat_tree w ?root)")
    case (Inl err)
    then show ?thesis
      by (simp add: GetRelevantFiles_def Walk_def relevant_fn_def split: prod.splits)
  next
    case (Inr info)
    obtain e s' where r: "walk w ?fn ?root info (lstat_tree w ?root) [] = (e, s')"
      by (cases "walk w ?fn ?root info (lstat_tree w ?root) []") auto
    from walk_skips_only [OF relevant_fn_skips_only,
        of w w cm query maxFiles ?root info "lstat_tree w ?root" "[]"] r
    have "e = None \<or> e = Some SkipDir" by simp
    with Inr r show ?thesis
      by (auto simp: GetRelevantFiles_def Walk_def)
  qed
qed

lemma walk_entries_append:
  "walk_entries w fn path (xs @ ys) s =
     (case walk_entries w fn path xs s of
        (None, s1) \<Rightarrow> walk_entries w fn path ys s1
      | (Some e, s1) \<Rightarrow> (Some e, s1))"
proof (induction xs arbitrary: s)
  case Nil
  then show ?case by simp
next
  case (Cons k xs)
  show ?case
    by (auto simp: Cons.IH split: sum.splits prod.splits option.splits)
qed

lemma relevant_entries_without_failed:
  assumes "node_lstat k = Inl e"
  shows "walk_entries w (relevant_fn w cm query maxFiles) path (pre @ k # post) s =
         walk_entries w (relevant_fn w cm query maxFiles) path (pre @ post) s"
  using assms
  by (simp add: walk_entries_append [of _ _ _ pre] relevant_fn_def
      split: prod.splits option.splits)

lemma structure_stops_at_failed_entry:
  "node_lstat k = Inl e \<Longrightarrow> e \<noteq> SkipDir \<Longrightarrow>
     walk_entries w (structure_fn w cm) path (k # ks) s = (Some e, s)"
  by (simp add: structure_fn_def)

text \<open>
  The errors of the walk of \<^verbatim>\<open>GetProjectStructure\<close>: what its callback and the walk
  return, when the call fails and when it does not.
\<close>

lemma genuine_tree_lstat: "genuine_tree k \<Longrightarrow> node_lstat k = Inl e \<Longrightarrow> genuine e"
  by (cases k) simp

lemma genuine_tree_readdir:
  "genuine_tree (FsNode nm ls (Some e) kids) \<Longrightarrow> genuine e"
  by simp

lemma genuine_tree_kids:
  "genuine_tree (FsNode nm ls rderr kids) \<Longrightarrow> k \<in> set kids \<Longrightarrow> genuine_tree k"
  by simp

lemma structure_fn_error: "structure_fn w cm path info (Some e) result = (Some e, result)"
  by (simp add: structure_fn_def)

lemma structure_fn_visit:
  assumes "genuine_Rel w"
  shows "fst (structure_fn w cm path (Some i) None result) = None \<or>
         (fst (structure_fn w cm path (Some i) None result) = Some SkipDir \<and> fiIsDir i) \<or>
         (\<exists>e. fst (structure_fn w cm path (Some i) None result) = Some e \<and> genuine e)"
proof (cases "path \<noteq> rootPath cm \<and> ShouldIgnore w cm path")
  case True
  then show ?thesis by (simp add: structure_fn_def)
next
  case False
  show ?thesis
  proof (cases "filepath_Rel w (rootPath cm) path")
    case (Inl e)
    with assms have "genuine e" unfolding genuine_Rel_def by blast
    with False Inl show ?thesis by (simp add: structure_fn_def)
  next
    case (Inr r)
    with False show ?thesis by (simp add: structure_fn_def Let_def)
  qed
qed

lemma structure_entries_class:
  assumes rel: "genuine_Rel w"
    and gen: "\<And>k. k \<in> set ks \<Longrightarrow> genuine_tree k"
    and kids: "\<And>k path info s. k \<in> set ks \<Longrightarrow>
       fst (walk w (structure_fn w cm) path info k s) = None \<or>
       (fst (walk w (structure_fn w cm) path info k s) = Some SkipDir \<and> fiIsDir info) \<or>
       (\<exists>e. fst (walk w (structure_fn w cm) path info k s) = Some e \<and> genuine e)"
  shows "fst (walk_entries w (structure_fn w cm) path ks s) = None \<or>
         (\<exists>e. fst (walk_entries w (structure_fn w cm) path ks s) = Some e \<and> genuine e)"
  using gen kids
proof (induction ks arbitrary: s)
  case Nil
  then show ?case by simp
next
  case (Cons k ks)
  have rest: "\<And>s'. fst (walk_entries w (structure_fn w cm) path ks s') = None \<or>
      (\<exists>e. fst (walk_entries w (structure_fn w cm) path ks s') = Some e \<and> genuine e)"
  proof -
    fix s'
    show "fst (walk_entries w (structure_fn w cm) path ks s') = None \<or>
      (\<exists>e. fst (walk_entries w (structure_fn w cm) path ks s') = Some e \<and> genuine e)"
    proof (rule Cons.IH)
      fix k' assume "k' \<in> set ks"
      then show "genuine_tree k'" by (intro Cons.prems(1)) simp
    next
      fix k' path' info' s''
      assume "k' \<in> set ks"
      then have "k' \<in> set (k # ks)" by simp
      then show "fst (walk w (structure_fn w cm) path' info' k' s'') = None \<or>
       (fst (walk w (structure_fn w cm) path' info' k' s'') = Some SkipDir \<and> fiIsDir info') \<or>
       (\<exists>e. fst (walk w (structure_fn w cm) path' info' k' s'') = Some e \<and> genuine e)"
        by (rule Cons.prems(2))
    qed
  qed
  have gk: "genuine_tree k" by (intro Cons.prems(1)) simp
  show ?case
  proof (cases "node_lstat k")
    case (Inl err)
    from genuine_tree_lstat [OF gk Inl] have g: "genuine err" .
    then have "err \<noteq> SkipDir" by (simp add: genuine_def)
    with Inl g show ?thesis by (auto simp: structure_fn_error)
  next
    case (Inr fileInfo)
    obtain e1 s1 where r: "walk w (structure_fn w cm) (filepath_Join w path (node_name k))
        fileInfo k s = (e1, s1)"
      by (cases "walk w (structure_fn w cm) (filepath_Join w path (node_name k)) fileInfo k s")
        auto
    from Cons.prems(2) [of k "filepath_Join w path (node_name k)" fileInfo s] r
    have c: "e1 = None \<or> (e1 = Some SkipDir \<and> fiIsDir fileInfo) \<or> (\<exists>e. e1 = Some e \<and> genuine e)"
      by simp
    then show ?thesis
    proof (elim disjE)
      assume "e1 = None"
      with Inr r rest [of s1] show ?thesis by simp
    next
      assume "e1 = Some SkipDir \<and> fiIsDir fileInfo"
      with Inr r rest [of s1] show ?thesis by simp
    next
      assume "\<exists>e. e1 = Some e \<and> genuine e"
      then obtain e where e: "e1 = Some e" "genuine e" by blast
      then have "e \<noteq> SkipDir" by (simp add: genuine_def)
      with Inr r e show ?thesis by simp
    qed
  qed
qed

lemma structure_walk_class:
  assumes rel: "genuine_Rel w"
  shows "genuine_tree node \<Longrightarrow>
     fst (walk w (structure_fn w cm) path info node s) = None \<or>
     (fst (walk w (structure_fn w cm) path info node s) = Some SkipDir \<and> fiIsDir info) \<or>
     (\<exists>e. fst (walk w (structure_fn w cm) path info node s) = Some e \<and> genuine e)"
proof (induction node arbitrary: path info s)
  case (FsNode nm ls rderr kids)
  show ?case
  proof (cases "fiIsDir info")
    case False
    with structure_fn_visit [OF rel, of cm path info s] show ?thesis by auto
  next
    case True
    show ?thesis
    proof (cases rderr)
      case (Some e)
      with FsNode.prems have "genuine e" by simp
      with True Some show ?thesis by (simp add: structure_fn_error)
    next
      case None
      obtain err1 s1 where r: "structure_fn w cm path (Some info) None s = (err1, s1)"
        by (cases "structure_fn w cm path (Some info) None s") auto
      from structure_fn_visit [OF rel, of cm path info s] r
      have c: "err1 = None \<or> (err1 = Some SkipDir \<and> fiIsDir info) \<or>
          (\<exists>e. err1 = Some e \<and> genuine e)"
        by simp
      show ?thesis
      proof (cases err1)
        case (Some e)
        with True None r c show ?thesis by auto
      next
        case err1_None: None
        have k: "fst (walk_entries w (structure_fn w cm) path kids s1) = None \<or>
          (\<exists>e. fst (walk_entries w (structure_fn w cm) path kids s1) = Some e \<and> genuine e)"
        proof (rule structure_entries_class [OF rel])
          fix k assume "k \<in> set kids"
          with FsNode.prems show "genuine_tree k" by simp
        next
          fix k path' info' s'
          assume kin: "k \<in> set kids"
          with FsNode.prems have "genuine_tree k" by simp
          from FsNode.IH [OF kin this]
          show "fst (walk w (structure_fn w cm) path' info' k s') = None \<or>
            (fst (walk w (structure_fn w cm) path' info' k s') = Some SkipDir \<and> fiIsDir info') \<or>
            (\<exists>e. fst (walk w (structure_fn w cm) path' info' k s') = Some e \<and> genuine e)" .
        qed
        from True None r err1_None k show ?thesis by auto
      qed
    qed
  qed
qed

lemma structure_fn_Rel_error:
  assumes "\<not> (path \<noteq> rootPath cm \<and> ShouldIgnore w cm path)"
    and "filepath_Rel w (rootPath cm) path = Inl e"
  shows "structure_fn w cm path (Some info) None s = (Some e, s)"
  using assms by (auto simp: structure_fn_def)

lemma structure_fn_Rel_ok:
  assumes "\<not> (path \<noteq> rootPath cm \<and> ShouldIgnore w cm path)"
    and "filepath_Rel w (rootPath cm) path = Inr r"
  shows "\<exists>s1. structure_fn w cm path (Some info) None s = (None, s1)"
  using assms by (cases "r = ''.''") (auto simp: structure_fn_def Let_def)

lemma structure_fn_ignored:
  assumes "path \<noteq> rootPath cm \<and> ShouldIgnore w cm path"
  shows "structure_fn w cm path (Some info) None s =
     (if fiIsDir info then Some SkipDir else None, s)"
  using assms by (auto simp: structure_fn_def)

lemma structure_entries_fault:
  assumes rel: "genuine_Rel w"
    and gen: "\<And>k. k \<in> set ks \<Longrightarrow> genuine_tree k"
    and kids: "\<And>k path info s. k \<in> set ks \<Longrightarrow> node_lstat k = Inr info \<Longrightarrow>
       walk_fault w cm path k \<Longrightarrow>
       \<exists>e s'. walk w (structure_fn w cm) path info k s = (Some e, s') \<and> genuine e"
    and fault: "\<exists>k \<in> set ks. walk_fault w cm (filepath_Join w path (node_name k)) k"
  shows "\<exists>e s'. walk_entries w (structure_fn w cm) path ks s = (Some e, s') \<and> genuine e"
  using gen kids fault
proof (induction ks arbitrary: s)
  case Nil
  then show ?case by simp
next
  case (Cons k ks)
  have gk: "genuine_tree k" by (intro Cons.prems(1)) simp
  show ?case
  proof (cases "node_lstat k")
    case (Inl err)
    from genuine_tree_lstat [OF gk Inl] have g: "genuine err" .
    then have "err \<noteq> SkipDir" by (simp add: genuine_def)
    with Inl g show ?thesis by (simp add: structure_fn_error)
  next
    case (Inr fileInfo)
    let ?p = "filepath_Join w path (node_name k)"
    obtain e1 s1 where r: "walk w (structure_fn w cm) ?p fileInfo k s = (e1, s1)"
      by (cases "walk w (structure_fn w cm) ?p fileInfo k s") auto
    from structure_walk_class [OF rel gk, of cm ?p fileInfo s] r
    have c: "e1 = None \<or> (e1 = Some SkipDir \<and> fiIsDir fileInfo) \<or> (\<exists>e. e1 = Some e \<and> genuine e)"
      by simp
    have go_on: "walk_entries w (structure_fn w cm) path (k # ks) s =
        walk_entries w (structure_fn w cm) path ks s1"
      if "e1 = None \<or> (e1 = Some SkipDir \<and> fiIsDir fileInfo)"
      using that Inr r by auto
    have in_rest: "\<exists>e s'. walk_entries w (structure_fn w cm) path ks s1 = (Some e, s') \<and> genuine e"
      if n: "e1 = None \<or> (e1 = Some SkipDir \<and> fiIsDir fileInfo)"
    proof (rule Cons.IH)
      fix k' assume "k' \<in> set ks"
      then show "genuine_tree k'" by (intro Cons.prems(1)) simp
    next
      fix k' path' info' s''
      assume "k' \<in> set ks" and "node_lstat k' = Inr info'" and "walk_fault w cm path' k'"
      then show "\<exists>e s'. walk w (structure_fn w cm) path' info' k' s'' = (Some e, s') \<and> genuine e"
        by (intro Cons.prems(2)) simp_all
    next
      have "\<not> walk_fault w cm ?p k"
      proof
        assume "walk_fault w cm ?p k"
        from Cons.prems(2) [OF _ Inr this, of s] r obtain e where "e1 = Some e" "genuine e"
          by auto
        with n show False by (auto simp: genuine_def)
      qed
      with Cons.prems(3) show "\<exists>k \<in> set ks. walk_fault w cm (filepath_Join w path (node_name k)) k"
        by auto
    qed
    from c show ?thesis
    proof (elim disjE)
      assume n: "e1 = None"
      with go_on in_rest show ?thesis by simp
    next
      assume n: "e1 = Some SkipDir \<and> fiIsDir fileInfo"
      with go_on in_rest show ?thesis by simp
    next
      assume "\<exists>e. e1 = Some e \<and> genuine e"
      then obtain e where e: "e1 = Some e" "genuine e" by blast
      then have "e \<noteq> SkipDir" by (simp add: genuine_def)
      with Inr r e show ?thesis by simp
    qed
  qed
qed

lemma structure_walk_fault:
  assumes rel: "genuine_Rel w"
  shows "genuine_tree node \<Longrightarrow> node_lstat node = Inr info \<Longrightarrow> walk_fault w cm path node \<Longrightarrow>
     \<exists>e s'. walk w (structure_fn w cm) path info node s = (Some e, s') \<and> genuine e"
proof (induction node arbitrary: path info s)
  case (FsNode nm ls rderr kids)
  from FsNode.prems(2) have ls: "ls = Inr info" by simp
  show ?case
  proof (cases "fiIsDir info \<and> rderr \<noteq> None")
    case True
    then obtain e where e: "rderr = Some e" by auto
    with FsNode.prems(1) have "genuine e" by simp
    with True e show ?thesis by (simp add: structure_fn_error)
  next
    case False
    with FsNode.prems(3) ls
    have ni: "\<not> (path \<noteq> rootPath cm \<and> ShouldIgnore w cm path)"
      by (auto split: if_splits)
    have none: "structure_fn w cm path (Some info) rderr s = structure_fn w cm path (Some info) None s"
      if "fiIsDir info" using that False by simp
    show ?thesis
    proof (cases "filepath_Rel w (rootPath cm) path")
      case (Inl e)
      with rel have "genuine e" unfolding genuine_Rel_def by blast
      moreover note structure_fn_Rel_error [OF ni Inl, of info s]
      ultimately show ?thesis using False by (cases "fiIsDir info") auto
    next
      case (Inr r)
      with FsNode.prems(3) ls False ni
      have dir: "fiIsDir info"
        and f: "\<exists>k \<in> set kids. walk_fault w cm (filepath_Join w path (node_name k)) k"
        by (auto split: if_splits)
      from dir False have rd: "rderr = None" by simp
      from structure_fn_Rel_ok [OF ni Inr, of info s]
      obtain s1 where c: "structure_fn w cm path (Some info) None s = (None, s1)" by blast
      have "\<exists>e s'. walk_entries w (structure_fn w cm) path kids s1 = (Some e, s') \<and> genuine e"
      proof (rule structure_entries_fault [OF rel _ _ f])
        fix k assume "k \<in> set kids"
        with FsNode.prems(1) show "genuine_tree k" by simp
      next
        fix k path' info' s''
        assume kin: "k \<in> set kids" and l: "node_lstat k = Inr info'"
          and wf: "walk_fault w cm path' k"
        from FsNode.prems(1) kin have "genuine_tree k" by simp
        from FsNode.IH [OF kin this l wf]
        show "\<exists>e s'. walk w (structure_fn w cm) path' info' k s'' = (Some e, s') \<and> genuine e" .
      qed
      with dir rd c show ?thesis by simp
    qed
  qed
qed

lemma GetProjectStructure_fault:
  assumes rel: "genuine_Rel w"
    and gen: "genuine_tree (lstat_tree w (rootPath cm))"
    and fault: "walk_fault w cm (rootPath cm) (lstat_tree w (rootPath cm))"
  shows "\<exists>e. GetProjectStructure w cm = Inl e \<and> genuine e"
proof (cases "node_lstat (lstat_tree w (rootPath cm))")
  case (Inl e)
  from genuine_tree_lstat [OF gen Inl] have g: "genuine e" .
  with Inl show ?thesis
    by (simp add: GetProjectStructure_def Walk_def structure_fn_error genuine_def)
next
  case (Inr info)
  from structure_walk_fault [OF rel gen Inr fault, of "''Project Structure:'' @ newline"]
  obtain e s' where r: "walk w (structure_fn w cm) (rootPath cm) info (lstat_tree w (rootPath cm))
      (''Project Structure:'' @ newline) = (Some e, s')" and g: "genuine e"
    by blast
  with Inr show ?thesis
    by (simp add: GetProjectStructure_def Walk_def genuine_def)
qed

lemma walk_fault_lstat: "node_lstat k = Inl e \<Longrightarrow> walk_fault w cm path k"
  by (cases k) simp

lemma structure_entries_sound:
  assumes kids: "\<And>k path info s. k \<in> set ks \<Longrightarrow> node_lstat k = Inr info \<Longrightarrow>
       \<not> walk_fault w cm path k \<Longrightarrow>
       \<exists>s'. walk w (structure_fn w cm) path info k s = (None, s') \<or>
            (walk w (structure_fn w cm) path info k s = (Some SkipDir, s') \<and> fiIsDir info)"
    and sound: "\<forall>k \<in> set ks. \<not> walk_fault w cm (filepath_Join w path (node_name k)) k"
  shows "\<exists>s'. walk_entries w (structure_fn w cm) path ks s = (None, s')"
  using kids sound
proof (induction ks arbitrary: s)
  case Nil
  then show ?case by simp
next
  case (Cons k ks)
  let ?p = "filepath_Join w path (node_name k)"
  from Cons.prems(2) have nf: "\<not> walk_fault w cm ?p k" by simp
  then obtain fileInfo where l: "node_lstat k = Inr fileInfo"
    using walk_fault_lstat [of k _ w cm ?p] by (cases "node_lstat k") auto
  from Cons.prems(1) [OF _ l nf, of s]
  obtain s1 where r: "walk w (structure_fn w cm) ?p fileInfo k s = (None, s1) \<or>
            (walk w (structure_fn w cm) ?p fileInfo k s = (Some SkipDir, s1) \<and> fiIsDir fileInfo)"
    by auto
  have rest: "\<exists>s'. walk_entries w (structure_fn w cm) path ks s1 = (None, s')"
  proof (rule Cons.IH)
    fix k' path' info' s''
    assume "k' \<in> set ks" and "node_lstat k' = Inr info'" and "\<not> walk_fault w cm path' k'"
    then show "\<exists>s'. walk w (structure_fn w cm) path' info' k' s'' = (None, s') \<or>
            (walk w (structure_fn w cm) path' info' k' s'' = (Some SkipDir, s') \<and> fiIsDir info')"
      by (intro Cons.prems(1)) simp_all
  next
    from Cons.prems(2)
    show "\<forall>k \<in> set ks. \<not> walk_fault w cm (filepath_Join w path (node_name k)) k" by simp
  qed
  from r l rest show ?case by auto
qed

lemma structure_walk_sound:
  "node_lstat node = Inr info \<Longrightarrow> \<not> walk_fault w cm path node \<Longrightarrow>
     \<exists>s'. walk w (structure_fn w cm) path info node s = (None, s') \<or>
          (walk w (structure_fn w cm) path info node s = (Some SkipDir, s') \<and> fiIsDir info)"
proof (induction node arbitrary: path info s)
  case (FsNode nm ls rderr kids)
  from FsNode.prems(1) have ls: "ls = Inr info" by simp
  from FsNode.prems(2) ls have rd: "fiIsDir info \<longrightarrow> rderr = None"
    by (auto split: if_splits)
  show ?case
  proof (cases "path \<noteq> rootPath cm \<and> ShouldIgnore w cm path")
    case True
    from structure_fn_ignored [OF True, of info s] rd show ?thesis
      by (cases "fiIsDir info") auto
  next
    case False
    with FsNode.prems(2) ls rd obtain r where
      rel: "filepath_Rel w (rootPath cm) path = Inr r" and
      nf: "fiIsDir info \<longrightarrow> (\<forall>k \<in> set kids. \<not> walk_fault w cm (filepath_Join w path (node_name k)) k)"
      by (cases "filepath_Rel w (rootPath cm) path") (auto split: if_splits)
    from structure_fn_Rel_ok [OF False rel, of info s]
    obtain s1 where c: "structure_fn w cm path (Some info) None s = (None, s1)" by blast
    show ?thesis
    proof (cases "fiIsDir info")
      case False
      with c show ?thesis by simp
    next
      case True
      have "\<exists>s'. walk_entries w (structure_fn w cm) path kids s1 = (None, s')"
      proof (rule structure_entries_sound)
        fix k path' info' s''
        assume "k \<in> set kids" and "node_lstat k = Inr info'" and "\<not> walk_fault w cm path' k"
        then show "\<exists>s'. walk w (structure_fn w cm) path' info' k s'' = (None, s') \<or>
            (walk w (structure_fn w cm) path' info' k s'' = (Some SkipDir, s') \<and> fiIsDir info')"
          by (rule FsNode.IH)
      next
        from nf True
        show "\<forall>k \<in> set kids. \<not> walk_fault w cm (filepath_Join w path (node_name k)) k" by simp
      qed
      with True rd c show ?thesis by auto
    qed
  qed
qed

lemma GetProjectStructure_sound:
  assumes "\<not> walk_fault w cm (rootPath cm) (lstat_tree w (rootPath cm))"
  shows "\<exists>result. GetProjectStructure w cm = Inr result"
proof -
  from assms obtain info where l: "node_lstat (lstat_tree w (rootPath cm)) = Inr info"
    using walk_fault_lstat [of "lstat_tree w (rootPath cm)" _ w cm "rootPath cm"]
    by (cases "node_lstat (lstat_tree w (rootPath cm))") auto
  from structure_walk_sound [OF l assms, of "''Project Structure:'' @ newline"] l
  show ?thesis
    by (auto simp: GetProjectStructure_def Walk_def)
qed

text \<open>
  The walk of \<^verbatim>\<open>GetRelevantFiles\<close> on a tree and on the tree without its failing
  entries; the callbacks do not read the tree.
\<close>

lemma prune_fields: "node_lstat (prune k) = node_lstat k \<and> node_name (prune k) = node_name k"
  by (cases k) simp

lemma relevant_faulty_entry:
  assumes "faulty k"
  shows "walk_entries w (relevant_fn w cm query maxFiles) path (k # ks) s =
         walk_entries w (relevant_fn w cm query maxFiles) path ks s"
proof (cases k)
  case (FsNode nm ls rderr kids)
  show ?thesis
  proof (cases ls)
    case (Inl e)
    with FsNode show ?thesis by (simp add: relevant_fn_def)
  next
    case (Inr info)
    with assms FsNode obtain e where "fiIsDir info" and "rderr = Some e"
      by (auto simp: faulty_def)
    with FsNode Inr show ?thesis by (simp add: relevant_fn_def)
  qed
qed

lemma relevant_entries_prune:
  assumes kids: "\<And>k path info s. k \<in> set ks \<Longrightarrow>
       walk w (relevant_fn w cm query maxFiles) path info (prune k) s =
       walk w (relevant_fn w cm query maxFiles) path info k s"
  shows "walk_entries w (relevant_fn w cm query maxFiles) path
           (map prune (filter (\<lambda>k. \<not> faulty k) ks)) s =
         walk_entries w (relevant_fn w cm query maxFiles) path ks s"
  using kids
proof (induction ks arbitrary: s)
  case Nil
  then show ?case by simp
next
  case (Cons k ks)
  have rest: "\<And>s'. walk_entries w (relevant_fn w cm query maxFiles) path
           (map prune (filter (\<lambda>k. \<not> faulty k) ks)) s' =
         walk_entries w (relevant_fn w cm query maxFiles) path ks s'"
  proof -
    fix s'
    show "walk_entries w (relevant_fn w cm query maxFiles) path
           (map prune (filter (\<lambda>k. \<not> faulty k) ks)) s' =
         walk_entries w (relevant_fn w cm query maxFiles) path ks s'"
    proof (rule Cons.IH)
      fix k' path' info' s''
      assume "k' \<in> set ks"
      then have "k' \<in> set (k # ks)" by simp
      then show "walk w (relevant_fn w cm query maxFiles) path' info' (prune k') s'' =
       walk w (relevant_fn w cm query maxFiles) path' info' k' s''"
        by (rule Cons.prems)
    qed
  qed
  show ?case
  proof (cases "faulty k")
    case True
    with rest [of s] relevant_faulty_entry [OF True, of w cm query maxFiles path ks s]
    show ?thesis by simp
  next
    case False
    then obtain info where l: "node_lstat k = Inr info"
      by (cases "node_lstat k") (auto simp: faulty_def)
    have same: "walk w (relevant_fn w cm query maxFiles) (filepath_Join w path (node_name k))
        info (prune k) s =
      walk w (relevant_fn w cm query maxFiles) (filepath_Join w path (node_name k)) info k s"
      by (rule Cons.prems) simp
    from False l same rest show ?thesis
      by (simp add: prune_fields split: prod.splits option.splits)
  qed
qed

lemma relevant_walk_prune:
  "walk w (relevant_fn w cm query maxFiles) path info (prune node) s =
   walk w (relevant_fn w cm query maxFiles) path info node s"
proof (induction node arbitrary: path info s)
  case (FsNode nm ls rderr kids)
  have "\<And>s'. walk_entries w (relevant_fn w cm query maxFiles) path
           (map prune (filter (\<lambda>k. \<not> faulty k) kids)) s' =
         walk_entries w (relevant_fn w cm query maxFiles) path kids s'"
    by (rule relevant_entries_prune) (rule FsNode.IH)
  then show ?case by (simp split: prod.splits)
qed

lemma matches_any_tree: "matches_any (w\<lparr>lstat_tree := t\<rparr>) ps b = matches_any w ps b"
  by (induction ps) (auto split: sum.splits)

lemma ShouldIgnore_tree: "ShouldIgnore (w\<lparr>lstat_tree := t\<rparr>) cm path = ShouldIgnore w cm path"
  by (simp add: ShouldIgnore_def matches_any_tree Let_def split: sum.splits)

lemma relevant_fn_tree:
  "relevant_fn (w\<lparr>lstat_tree := t\<rparr>) cm query maxFiles = relevant_fn w cm query maxFiles"
  by (intro ext)
     (simp add: relevant_fn_def ShouldIgnore_tree rel_or_empty_def Let_def
        split: option.splits)

lemma walk_entries_tree:
  assumes kids: "\<And>k path info s. k \<in> set ks \<Longrightarrow>
       walk (w\<lparr>lstat_tree := t\<rparr>) fn path info k s = walk w fn path info k s"
  shows "walk_entries (w\<lparr>lstat_tree := t\<rparr>) fn path ks s = walk_entries w fn path ks s"
  using kids
proof (induction ks arbitrary: s)
  case Nil
  then show ?case by simp
next
  case (Cons k ks)
  have rest: "\<And>s'. walk_entries (w\<lparr>lstat_tree := t\<rparr>) fn path ks s' = walk_entries w fn path ks s'"
  proof -
    fix s'
    show "walk_entries (w\<lparr>lstat_tree := t\<rparr>) fn path ks s' = walk_entries w fn path ks s'"
    proof (rule Cons.IH)
      fix k' path' info' s''
      assume "k' \<in> set ks"
      then have "k' \<in> set (k # ks)" by simp
      then show "walk (w\<lparr>lstat_tree := t\<rparr>) fn path' info' k' s'' = walk w fn path' info' k' s''"
        by (rule Cons.prems)
    qed
  qed
  have same: "\<And>info. walk (w\<lparr>lstat_tree := t\<rparr>) fn (filepath_Join w path (node_name k)) info k s =
      walk w fn (filepath_Join w path (node_name k)) info k s"
    by (rule Cons.prems) simp
  from same rest show ?case
    by (simp split: sum.splits prod.splits option.splits)
qed

lemma walk_tree:
  "walk (w\<lparr>lstat_tree := t\<rparr>) fn path info node s = walk w fn path info node s"
proof (induction node arbitrary: path info s)
  case (FsNode nm ls rderr kids)
  have "\<And>s'. walk_entries (w\<lparr>lstat_tree := t\<rparr>) fn path kids s' = walk_entries w fn path kids s'"
    by (rule walk_entries_tree) (rule FsNode.IH)
  then show ?case by (simp split: prod.splits)
qed

lemma GetRelevantFiles_prune:
  "GetRelevantFiles (w\<lparr>lstat_tree := \<lambda>root. prune (lstat_tree w root)\<rparr>) cm query maxFiles =
   GetRelevantFiles w cm query maxFiles"
  by (simp add: GetRelevantFiles_def Walk_def prune_fields relevant_fn_tree walk_tree
      relevant_walk_prune split: sum.splits)

text \<open>
  Claim C4 (the code does not do what the claim and the comment at line 218 say). When the
  limit is reached the callback returns \<^verbatim>\<open>SkipDir\<close>. Returned for a file, this makes
  \<^verbatim>\<open>filepath.Walk\<close> skip the rest of the directory that holds the file, not the rest of
  the walk: the walk goes on with the next directory, and there the callback appends the
  first matching file before it tests the limit again. With two directories that each hold a
  file whose name contains the query, and a limit of 1, two paths are returned.
\<close>

theorem GetRelevantFiles_exceeds_limit:
  "GetRelevantFiles two_dirs_world two_dirs_cm ''x'' 1 = ([''/p/a/x1'', ''/p/b/x1''], None)"
  by (simp add: two_dirs_world_def two_dirs_cm_def ex_defs str_defs walk_defs)

text \<open>
  Claim C7, as stated, fails for \<^verbatim>\<open>GetProjectStructure\<close>: its callback returns the error
  it is handed, so an \<^verbatim>\<open>Lstat\<close> failure on one entry stops the walk and the call fails
  with that error.
\<close>

theorem structure_entry_error_fatal_counterexample:
  "node_lstat (node_children (lstat_tree broken_entry_world ''/p'') ! 1) = Inl permission_denied \<and>
   GetProjectStructure broken_entry_world broken_entry_cm = Inl permission_denied"
  by (simp add: broken_entry_world_def broken_entry_cm_def ex_defs str_defs walk_defs)

text \<open>
  Claim C7, amended. \<^verbatim>\<open>GetRelevantFiles\<close> never returns an error, whatever fails during
  the walk or in \<^verbatim>\<open>filepath.Rel\<close>; an entry on which \<^verbatim>\<open>Lstat\<close> fails is treated as
  if the directory did not list it, and a directory whose names cannot be read is passed
  over without a change of the result: the call returns what it returns on the tree from
  which every such entry, at any depth below the root, has been removed.
  \<^verbatim>\<open>GetProjectStructure\<close> does the opposite. A directory whose names cannot be read
  stops the walk with that error; when the walk reaches an entry of the root on which
  \<^verbatim>\<open>Lstat\<close> fails the call returns that error, and so it does when \<^verbatim>\<open>filepath.Rel\<close>
  fails on the root. In general, when the part of the tree that the walk goes through
  holds, at any depth, an entry on which \<^verbatim>\<open>Lstat\<close> fails, a directory whose names cannot
  be read or an entry for which \<^verbatim>\<open>filepath.Rel\<close> fails, and these errors are errors of the
  operating system and not \<^verbatim>\<open>SkipDir\<close> or \<^verbatim>\<open>SkipAll\<close>, the call fails with such an
  error; and when that part holds none of them the call returns the listing.
\<close>

theorem walk_errors_by_operation:
  "snd (GetRelevantFiles w cm query maxFiles) = None \<and>
   (node_lstat k = Inl e \<longrightarrow>
      walk w (relevant_fn w cm query maxFiles) path info (FsNode nm ls rderr (pre @ k # post)) s =
      walk w (relevant_fn w cm query maxFiles) path info (FsNode nm ls rderr (pre @ post)) s) \<and>
   (fiIsDir info \<longrightarrow>
      walk w (relevant_fn w cm query maxFiles) path info (FsNode nm ls (Some e) kids) s
        = (None, s)) \<and>
   (fiIsDir info \<longrightarrow>
      walk w (structure_fn w cm) path info (FsNode nm ls (Some e) kids) result
        = (Some e, result)) \<and>
   (lstat_tree w (rootPath cm) = FsNode nm (Inr info) None (pre @ k # post) \<and> fiIsDir info \<and>
    filepath_Rel w (rootPath cm) (rootPath cm) = Inr ''.'' \<and>
    fst (walk_entries w (structure_fn w cm) (rootPath cm) pre (''Project Structure:'' @ newline))
      = None \<and>
    node_lstat k = Inl e \<and> e \<noteq> SkipDir \<and> e \<noteq> SkipAll
    \<longrightarrow> GetProjectStructure w cm = Inl e) \<and>
   (lstat_tree w (rootPath cm) = FsNode nm (Inr info) None kids \<and>
    filepath_Rel w (rootPath cm) (rootPath cm) = Inl e \<and> e \<noteq> SkipDir \<and> e \<noteq> SkipAll
    \<longrightarrow> GetProjectStructure w cm = Inl e) \<and>
   GetRelevantFiles (w\<lparr>lstat_tree := \<lambda>root. prune (lstat_tree w root)\<rparr>) cm query maxFiles
     = GetRelevantFiles w cm query maxFiles \<and>
   (genuine_Rel w \<and> genuine_tree (lstat_tree w (rootPath cm)) \<and>
    walk_fault w cm (rootPath cm) (lstat_tree w (rootPath cm))
    \<longrightarrow> (\<exists>err. GetProjectStructure w cm = Inl err \<and> genuine err)) \<and>
   (\<not> walk_fault w cm (rootPath cm) (lstat_tree w (rootPath cm))
    \<longrightarrow> (\<exists>listing. GetProjectStructure w cm = Inr listing))"
proof (intro conjI impI)
  show "snd (GetRelevantFiles w cm query maxFiles) = None"
    by (rule GetRelevantFiles_no_error)
next
  assume "node_lstat k = Inl e"
  from relevant_entries_without_failed [OF this]
  show "walk w (relevant_fn w cm query maxFiles) path info (FsNode nm ls rderr (pre @ k # post)) s =
      walk w (relevant_fn w cm query maxFiles) path info (FsNode nm ls rderr (pre @ post)) s"
    by (simp split: prod.splits)
next
  assume "fiIsDir info"
  then show "walk w (relevant_fn w cm query maxFiles) path info (FsNode nm ls (Some e) kids) s
        = (None, s)"
    by (simp add: relevant_fn_def)
next
  assume "fiIsDir info"
  then show "walk w (structure_fn w cm) path info (FsNode nm ls (Some e) kids) result
        = (Some e, result)"
    by (simp add: structure_fn_def)
next
  let ?root = "rootPath cm"
  let ?hdr = "''Project Structure:'' @ newline"
  assume h: "lstat_tree w ?root = FsNode nm (Inr info) None (pre @ k # post) \<and> fiIsDir info \<and>
    filepath_Rel w ?root ?root = Inr ''.'' \<and>
    fst (walk_entries w (structure_fn w cm) ?root pre ?hdr) = None \<and>
    node_lstat k = Inl e \<and> e \<noteq> SkipDir \<and> e \<noteq> SkipAll"
  obtain s1 where p: "walk_entries w (structure_fn w cm) ?root pre ?hdr = (None, s1)"
    using h by (cases "walk_entries w (structure_fn w cm) ?root pre ?hdr") auto
  have k: "walk_entries w (structure_fn w cm) ?root (k # post) s1 = (Some e, s1)"
    using h by (intro structure_stops_at_failed_entry) simp_all
  have a: "walk_entries w (structure_fn w cm) ?root (pre @ k # post) ?hdr = (Some e, s1)"
    by (simp only: walk_entries_append [of _ _ _ pre] p k prod.case option.case)
  have r: "structure_fn w cm ?root (Some info) None ?hdr = (None, ?hdr)"
    using h by (simp add: structure_fn_def)
  have "walk w (structure_fn w cm) ?root info (lstat_tree w ?root) ?hdr = (Some e, s1)"
    using h r a by simp
  with h show "GetProjectStructure w cm = Inl e"
    by (simp add: GetProjectStructure_def Walk_def)
next
  assume h: "lstat_tree w (rootPath cm) = FsNode nm (Inr info) None kids \<and>
    filepath_Rel w (rootPath cm) (rootPath cm) = Inl e \<and> e \<noteq> SkipDir \<and> e \<noteq> SkipAll"
  then have "structure_fn w cm (rootPath cm) (Some info) None (''Project Structure:'' @ newline)
      = (Some e, ''Project Structure:'' @ newline)"
    by (simp add: structure_fn_def)
  then have "walk w (structure_fn w cm) (rootPath cm) info (lstat_tree w (rootPath cm))
      (''Project Structure:'' @ newline) = (Some e, ''Project Structure:'' @ newline)"
    using h by simp
  with h show "GetProjectStructure w cm = Inl e"
    by (simp add: GetProjectStructure_def Walk_def)
next
  show "GetRelevantFiles (w\<lparr>lstat_tree := \<lambda>root. prune (lstat_tree w root)\<rparr>) cm query maxFiles
     = GetRelevantFiles w cm query maxFiles"
    by (rule GetRelevantFiles_prune)
next
  assume "genuine_Rel w \<and> genuine_tree (lstat_tree w (rootPath cm)) \<and>
    walk_fault w cm (rootPath cm) (lstat_tree w (rootPath cm))"
  then show "\<exists>err. GetProjectStructure w cm = Inl err \<and> genuine err"
    by (intro GetProjectStructure_fault) simp_all
next
  assume "\<not> walk_fault w cm (rootPath cm) (lstat_tree w (rootPath cm))"
  then show "\<exists>listing. GetProjectStructure w cm = Inr listing"
    by (rule GetProjectStructure_sound)
qed

theorem walk_errors_by_operation_witness:
  "lstat_tree broken_entry_world ''/p'' =
     FsNode ''p'' (Inr \<lparr>fiName = ''p'', fiIsDir = True, fiModTime = 0\<rparr>) None
       ([file_node ''a.go'' 1] @ FsNode ''locked'' (Inl permission_denied) None []
          # [file_node ''ok.go'' 1]) \<and>
   filepath_Rel broken_entry_world ''/p'' ''/p'' = Inr ''.'' \<and>
   fst (walk_entries broken_entry_world (structure_fn broken_entry_world broken_entry_cm) ''/p''
          [file_node ''a.go'' 1] (''Project Structure:'' @ newline)) = None \<and>
   GetProjectStructure broken_entry_world broken_entry_cm = Inl permission_denied \<and>
   GetRelevantFiles broken_entry_world broken_entry_cm ''go'' 5
     = ([''/p/a.go'', ''/p/ok.go''], None) \<and>
   walk broken_entry_world (relevant_fn broken_entry_world broken_entry_cm ''go'' 5) ''/p/d''
     \<lparr>fiName = ''d'', fiIsDir = True, fiModTime = 0\<rparr>
     (FsNode ''d'' (Inr \<lparr>fiName = ''d'', fiIsDir = True, fiModTime = 0\<rparr>)
        (Some permission_denied) []) [''/p/a.go'']
     = (None, [''/p/a.go'']) \<and>
   walk broken_entry_world (structure_fn broken_entry_world broken_entry_cm) ''/p/d''
     \<lparr>fiName = ''d'', fiIsDir = True, fiModTime = 0\<rparr>
     (FsNode ''d'' (Inr \<lparr>fiName = ''d'', fiIsDir = True, fiModTime = 0\<rparr>)
        (Some permission_denied) []) (''Project Structure:'' @ newline)
     = (Some permission_denied, ''Project Structure:'' @ newline) \<and>
   GetProjectStructure (broken_entry_world\<lparr>filepath_Rel := \<lambda>base target. Inl permission_denied\<rparr>)
     broken_entry_cm = Inl permission_denied \<and>
   snd (GetRelevantFiles (broken_entry_world\<lparr>filepath_Rel := \<lambda>base target. Inl permission_denied\<rparr>)
     broken_entry_cm ''go'' 5) = None \<and>
   genuine_Rel deep_fault_world \<and>
   genuine_tree (lstat_tree deep_fault_world ''/p'') \<and>
   walk_fault deep_fault_world deep_fault_cm ''/p'' (lstat_tree deep_fault_world ''/p'') \<and>
   GetProjectStructure deep_fault_world deep_fault_cm = Inl permission_denied \<and>
   genuine permission_denied \<and>
   prune (lstat_tree deep_fault_world ''/p'') =
     dir_node ''p'' [file_node ''a.go'' 1, dir_node ''sub'' [file_node ''inner.go'' 1],
       file_node ''z.go'' 1] \<and>
   GetRelevantFiles deep_fault_world deep_fault_cm ''go'' 5 =
     ([''/p/a.go'', ''/p/sub/inner.go'', ''/p/z.go''], None) \<and>
   GetRelevantFiles
     (deep_fault_world\<lparr>lstat_tree := \<lambda>root. prune (lstat_tree deep_fault_world root)\<rparr>)
     deep_fault_cm ''go'' 5 =
     ([''/p/a.go'', ''/p/sub/inner.go'', ''/p/z.go''], None) \<and>
   \<not> walk_fault two_dirs_world two_dirs_cm ''/p'' (lstat_tree two_dirs_world ''/p'') \<and>
   \<not> isl (GetProjectStructure two_dirs_world two_dirs_cm) \<and>
   GetProjectStructure two_dirs_world two_dirs_cm =
     Inr (''Project Structure:'' @ newline @ ''a/'' @ newline @ ''  x1'' @ newline @ ''  x2''
          @ newline @ ''b/'' @ newline @ ''  x1'' @ newline)"
proof -
  let ?info = "\<lparr>fiName = ''p'', fiIsDir = True, fiModTime = 0\<rparr>"
  let ?dinfo = "\<lparr>fiName = ''d'', fiIsDir = True, fiModTime = 0\<rparr>"
  let ?k = "FsNode ''locked'' (Inl permission_denied) None []"
  have root: "rootPath broken_entry_cm = ''/p''"
    by (simp add: broken_entry_cm_def ex_defs Let_def)
  have t: "lstat_tree broken_entry_world ''/p'' =
     FsNode ''p'' (Inr ?info) None ([file_node ''a.go'' 1] @ ?k # [file_node ''ok.go'' 1])"
    by (simp add: broken_entry_world_def ex_defs)
  have r: "filepath_Rel broken_entry_world ''/p'' ''/p'' = Inr ''.''"
    by (simp add: broken_entry_world_def ex_defs)
  have p: "fst (walk_entries broken_entry_world (structure_fn broken_entry_world broken_entry_cm)
          ''/p'' [file_node ''a.go'' 1] (''Project Structure:'' @ newline)) = None"
    by (simp add: broken_entry_world_def broken_entry_cm_def ex_defs str_defs walk_defs)
  have g: "GetRelevantFiles broken_entry_world broken_entry_cm ''go'' 5
      = ([''/p/a.go'', ''/p/ok.go''], None)"
    by (simp add: broken_entry_world_def broken_entry_cm_def ex_defs str_defs walk_defs)
  note top = walk_errors_by_operation [where w = broken_entry_world and cm = broken_entry_cm
      and k = "?k" and e = permission_denied and info = "?info" and nm = "''p''"
      and pre = "[file_node ''a.go'' 1]" and post = "[file_node ''ok.go'' 1]"]
  note unreadable = walk_errors_by_operation [where w = broken_entry_world
      and cm = broken_entry_cm and query = "''go''" and maxFiles = 5
      and e = permission_denied and info = "?dinfo" and nm = "''d''" and ls = "Inr ?dinfo"
      and kids = "[]" and path = "''/p/d''" and s = "[''/p/a.go'']"
      and result = "''Project Structure:'' @ newline"]
  from top root t r p g have s: "GetProjectStructure broken_entry_world broken_entry_cm
      = Inl permission_denied"
    by (simp add: permission_denied_def)
  from unreadable have u: "walk broken_entry_world
       (relevant_fn broken_entry_world broken_entry_cm ''go'' 5) ''/p/d'' ?dinfo
       (FsNode ''d'' (Inr ?dinfo) (Some permission_denied) []) [''/p/a.go'']
     = (None, [''/p/a.go'']) \<and>
     walk broken_entry_world (structure_fn broken_entry_world broken_entry_cm) ''/p/d'' ?dinfo
       (FsNode ''d'' (Inr ?dinfo) (Some permission_denied) []) (''Project Structure:'' @ newline)
     = (Some permission_denied, ''Project Structure:'' @ newline)"
    by simp
  let ?w = "broken_entry_world\<lparr>filepath_Rel := \<lambda>base target. Inl permission_denied\<rparr>"
  have t': "lstat_tree ?w ''/p'' =
     FsNode ''p'' (Inr ?info) None ([file_node ''a.go'' 1] @ ?k # [file_node ''ok.go'' 1])"
    by (simp add: broken_entry_world_def ex_defs)
  note norel = walk_errors_by_operation [where w = ?w and cm = broken_entry_cm
      and query = "''go''" and maxFiles = 5 and e = permission_denied and info = "?info"
      and nm = "''p''" and kids = "[file_node ''a.go'' 1] @ ?k # [file_node ''ok.go'' 1]"]
  from norel root t' have n: "GetProjectStructure ?w broken_entry_cm = Inl permission_denied \<and>
      snd (GetRelevantFiles ?w broken_entry_cm ''go'' 5) = None"
    by (simp add: permission_denied_def)
  have droot: "rootPath deep_fault_cm = ''/p''"
    by (simp add: deep_fault_cm_def ex_defs Let_def)
  have d1: "genuine_Rel deep_fault_world"
    by (simp add: genuine_Rel_def genuine_def deep_fault_world_def ex_defs)
  have d2: "genuine_tree (lstat_tree deep_fault_world ''/p'')"
    by (simp add: genuine_def deep_fault_world_def ex_defs)
  have d3: "walk_fault deep_fault_world deep_fault_cm ''/p'' (lstat_tree deep_fault_world ''/p'')"
    by (simp add: deep_fault_world_def deep_fault_cm_def ex_defs str_defs walk_defs)
  have d4: "GetProjectStructure deep_fault_world deep_fault_cm = Inl permission_denied"
    by (simp add: deep_fault_world_def deep_fault_cm_def ex_defs str_defs walk_defs)
  note deep = walk_errors_by_operation [where w = deep_fault_world and cm = deep_fault_cm
      and query = "''go''" and maxFiles = 5]
  from deep droot d1 d2 d3 d4 have d5: "genuine permission_denied"
    by simp
  have d6: "prune (lstat_tree deep_fault_world ''/p'') =
     dir_node ''p'' [file_node ''a.go'' 1, dir_node ''sub'' [file_node ''inner.go'' 1],
       file_node ''z.go'' 1]"
    by (simp add: deep_fault_world_def ex_defs faulty_def)
  have d7: "GetRelevantFiles deep_fault_world deep_fault_cm ''go'' 5 =
     ([''/p/a.go'', ''/p/sub/inner.go'', ''/p/z.go''], None)"
    by (simp add: deep_fault_world_def deep_fault_cm_def ex_defs str_defs walk_defs)
  from deep d7 have d8: "GetRelevantFiles
     (deep_fault_world\<lparr>lstat_tree := \<lambda>root. prune (lstat_tree deep_fault_world root)\<rparr>)
     deep_fault_cm ''go'' 5 =
     ([''/p/a.go'', ''/p/sub/inner.go'', ''/p/z.go''], None)"
    by simp
  have troot: "rootPath two_dirs_cm = ''/p''"
    by (simp add: two_dirs_cm_def ex_defs Let_def)
  have e1: "\<not> walk_fault two_dirs_world two_dirs_cm ''/p'' (lstat_tree two_dirs_world ''/p'')"
    by (simp add: two_dirs_world_def two_dirs_cm_def ex_defs str_defs walk_defs)
  note sound = walk_errors_by_operation [where w = two_dirs_world and cm = two_dirs_cm,
      THEN conjunct2, THEN conjunct2, THEN conjunct2, THEN conjunct2, THEN conjunct2,
      THEN conjunct2, THEN conjunct2, THEN conjunct2]
  from sound troot e1 have e2: "\<not> isl (GetProjectStructure two_dirs_world two_dirs_cm)"
    by auto
  have e3: "GetProjectStructure two_dirs_world two_dirs_cm =
     Inr (''Project Structure:'' @ newline @ ''a/'' @ newline @ ''  x1'' @ newline @ ''  x2''
          @ newline @ ''b/'' @ newline @ ''  x1'' @ newline)"
    by (simp add: two_dirs_world_def two_dirs_cm_def ex_defs str_defs walk_defs)
  have before: "lstat_tree broken_entry_world ''/p'' =
     FsNode ''p'' (Inr ?info) None ([file_node ''a.go'' 1] @ ?k # [file_node ''ok.go'' 1]) \<and>
   filepath_Rel broken_entry_world ''/p'' ''/p'' = Inr ''.'' \<and>
   fst (walk_entries broken_entry_world (structure_fn broken_entry_world broken_entry_cm) ''/p''
          [file_node ''a.go'' 1] (''Project Structure:'' @ newline)) = None \<and>
   GetProjectStructure broken_entry_world broken_entry_cm = Inl permission_denied \<and>
   GetRelevantFiles broken_entry_world broken_entry_cm ''go'' 5
     = ([''/p/a.go'', ''/p/ok.go''], None) \<and>
   walk broken_entry_world (relevant_fn broken_entry_world broken_entry_cm ''go'' 5) ''/p/d''
     ?dinfo (FsNode ''d'' (Inr ?dinfo) (Some permission_denied) []) [''/p/a.go'']
     = (None, [''/p/a.go'']) \<and>
   walk broken_entry_world (structure_fn broken_entry_world broken_entry_cm) ''/p/d''
     ?dinfo (FsNode ''d'' (Inr ?dinfo) (Some permission_denied) []) (''Project Structure:'' @ newline)
     = (Some permission_denied, ''Project Structure:'' @ newline) \<and>
   GetProjectStructure ?w broken_entry_cm = Inl permission_denied \<and>
   snd (GetRelevantFiles ?w broken_entry_cm ''go'' 5) = None"
    using t r p g s u n by simp
  have after: "genuine_Rel deep_fault_world \<and>
   genuine_tree (lstat_tree deep_fault_world ''/p'') \<and>
   walk_fault deep_fault_world deep_fault_cm ''/p'' (lstat_tree deep_fault_world ''/p'') \<and>
   GetProjectStructure deep_fault_world deep_fault_cm = Inl permission_denied \<and>
   genuine permission_denied \<and>
   prune (lstat_tree deep_fault_world ''/p'') =
     dir_node ''p'' [file_node ''a.go'' 1, dir_node ''sub'' [file_node ''inner.go'' 1],
       file_node ''z.go'' 1] \<and>
   GetRelevantFiles deep_fault_world deep_fault_cm ''go'' 5 =
     ([''/p/a.go'', ''/p/sub/inner.go'', ''/p/z.go''], None) \<and>
   GetRelevantFiles
     (deep_fault_world\<lparr>lstat_tree := \<lambda>root. prune (lstat_tree deep_fault_world root)\<rparr>)
     deep_fault_cm ''go'' 5 =
     ([''/p/a.go'', ''/p/sub/inner.go'', ''/p/z.go''], None) \<and>
   \<not> walk_fault two_dirs_world two_dirs_cm ''/p'' (lstat_tree two_dirs_world ''/p'') \<and>
   \<not> isl (GetProjectStructure two_dirs_world two_dirs_cm) \<and>
   GetProjectStructure two_dirs_world two_dirs_cm =
     Inr (''Project Structure:'' @ newline @ ''a/'' @ newline @ ''  x1'' @ newline @ ''  x2''
          @ newline @ ''b/'' @ newline @ ''  x1'' @ newline)"
    by (intro conjI d1 d2 d3 d4 d5 d6 d7 d8 e1 e2 e3)
  from before after show ?thesis by blast
qed


section \<open>The related-file resolver\<close>












end
